theory Spec2Isabelle
  imports Complex_Main
begin

section \<open>Survey-simulation notebook: data model\<close>

text \<open>
  The notebooks are Python/numpy scripts over tables read from FITS files. A table is
  modelled as the list of its rows, a row as a record of the columns the code reads.
  Timestamps and signal-to-noise fractions are IEEE floats in the files; the code only
  compares them (\<open><\<close>, \<open>>\<close>, \<open>>=\<close>, min, max), which is exact on finite floats, so
  they are modelled as reals. NaN is outside the model.

  Every Python exception is a value of \<open>error\<close>; a computation that may raise returns
  \<open>error + 'a\<close> with \<open>Inl\<close> the exception.
\<close>

datatype error =
    ValueError | IndexError | KeyError | TypeError | NameError | ImportError
  | FileNotFoundError | NotADirectoryError | OSError

text \<open>One row of the \<open>exposures\<close> HDU of exposures.fits (columns read by the code).\<close>

record exposure =
  mjd :: real
  tileid :: int
  snr2frac :: real

text \<open>
  The tile catalog object \<open>tiles = desisurvey.tiles.get_tiles()\<close> of an external library.
  The notebook reads its per-tile arrays \<open>tileID\<close>, \<open>tileRA\<close>, \<open>tileDEC\<close>, \<open>passnum\<close>, the
  list \<open>passes\<close> and calls its method \<open>index\<close>, which maps a tile identifier to its array
  position. The method is not part of the repository: it is a parameter of the model, a
  partial function whose \<open>None\<close> is the exception it raises for an identifier it does
  not know.
\<close>

record tiles =
  tileID :: "int list"
  tileRA :: "real list"
  tileDEC :: "real list"
  passnum :: "int list"
  passes :: "int list"
  index :: "int \<Rightarrow> nat option"

subsection \<open>numpy array operations used by the notebook\<close>

text \<open>\<open>a & b\<close> on two boolean arrays of the same shape.\<close>

definition mask_and :: "bool list \<Rightarrow> bool list \<Rightarrow> bool list" where
  "mask_and a b = map2 (\<and>) a b"

text \<open>\<open>a[m]\<close>: the elements of \<open>a\<close> at the positions where the boolean mask is set.\<close>

definition select :: "'a list \<Rightarrow> bool list \<Rightarrow> 'a list" where
  "select a m = map fst (filter snd (zip a m))"

text \<open>\<open>numpy.sum\<close> of a boolean array: the number of set entries.\<close>

definition count_true :: "bool list \<Rightarrow> nat" where
  "count_true bs = length (filter (\<lambda>b. b) bs)"

text \<open>An elementwise operation that raises as soon as one element does.\<close>

fun traverse :: "('a \<Rightarrow> error + 'b) \<Rightarrow> 'a list \<Rightarrow> error + 'b list" where
  "traverse f [] = Inr []"
| "traverse f (x # xs) =
     (case f x of
        Inl e \<Rightarrow> Inl e
      | Inr y \<Rightarrow> (case traverse f xs of Inl e \<Rightarrow> Inl e | Inr ys \<Rightarrow> Inr (y # ys)))"

text \<open>\<open>tiles.index(ids)\<close> on an array of identifiers: ValueError for an unknown one.\<close>

definition tiles_index :: "tiles \<Rightarrow> int list \<Rightarrow> error + nat list" where
  "tiles_index tiles ids =
     traverse (\<lambda>t. case index tiles t of None \<Rightarrow> Inl ValueError | Some i \<Rightarrow> Inr i) ids"

text \<open>\<open>a[idx]\<close> with an array of positions: IndexError for a position out of range.\<close>

definition take_at :: "'a list \<Rightarrow> nat list \<Rightarrow> error + 'a list" where
  "take_at a idx = traverse (\<lambda>i. if i < length a then Inr (a ! i) else Inl IndexError) idx"

subsection \<open>completed\_in\_timerange\<close>

text \<open>
  \<^verbatim>\<open>
  def completed_in_timerange(exposures, startmjd, stopmjd):
      m = (exposures['mjd'] > startmjd) & (exposures['mjd'] < stopmjd)
      tilepass = tiles.passnum[tiles.index(exposures['tileid'])]
      return [numpy.sum(exposures['snr2frac'][m & (tilepass == pass0)] >= 1)
              for pass0 in tiles.passes]
  \<close>
  The global \<open>tiles\<close> is an explicit argument.
\<close>

definition completed_in_timerange ::
  "tiles \<Rightarrow> exposure list \<Rightarrow> real \<Rightarrow> real \<Rightarrow> error + nat list" where
  "completed_in_timerange tiles exposures startmjd stopmjd =
     (let m = mask_and (map (\<lambda>x. x > startmjd) (map mjd exposures))
                       (map (\<lambda>x. x < stopmjd) (map mjd exposures))
      in case tiles_index tiles (map tileid exposures) of
           Inl e \<Rightarrow> Inl e
         | Inr idx \<Rightarrow>
             (case take_at (passnum tiles) idx of
                Inl e \<Rightarrow> Inl e
              | Inr tilepass \<Rightarrow>
                  Inr (map (\<lambda>pass0.
                         count_true
                           (map (\<lambda>s. s \<ge> 1)
                              (select (map snr2frac exposures)
                                 (mask_and m (map (\<lambda>p. p = pass0) tilepass)))))
                       (passes tiles))))"

text \<open>
  The pass of the tile with identifier \<open>t\<close>, as the catalog gives it: the entry of
  \<open>passnum\<close> at the position \<open>index\<close> returns; none when the identifier is unknown or the
  position lies outside \<open>passnum\<close>.
\<close>

definition tile_pass :: "tiles \<Rightarrow> int \<Rightarrow> int option" where
  "tile_pass tiles t =
     (case index tiles t of
        None \<Rightarrow> None
      | Some i \<Rightarrow> if i < length (passnum tiles) then Some (passnum tiles ! i) else None)"

text \<open>A catalog lookup by position in a list of identifiers, for concrete catalogs.\<close>

fun position_of :: "int list \<Rightarrow> int \<Rightarrow> nat option" where
  "position_of [] t = None"
| "position_of (x # xs) t = (if x = t then Some 0 else map_option Suc (position_of xs t))"

definition two_tiles :: tiles where
  "two_tiles = \<lparr>tileID = [1, 2], tileRA = [10, 20], tileDEC = [-5, 5], passnum = [0, 1],
     passes = [0, 1], index = position_of [1, 2]\<rparr>"

definition exposures_known :: "exposure list" where
  "exposures_known =
     [\<lparr>mjd = 58821, tileid = 1, snr2frac = 1\<rparr>,
      \<lparr>mjd = 58900, tileid = 1, snr2frac = 1\<rparr>,
      \<lparr>mjd = 58901, tileid = 2, snr2frac = 1/2\<rparr>,
      \<lparr>mjd = 58902, tileid = 2, snr2frac = 5/4\<rparr>,
      \<lparr>mjd = 59186, tileid = 2, snr2frac = 2\<rparr>]"

definition exposures_unknown :: "exposure list" where
  "exposures_unknown = [\<lparr>mjd = 58900, tileid = 7, snr2frac = 1\<rparr>]"

subsection \<open>Tile summary rows and the survey summary line\<close>

text \<open>
  One row of the \<open>tiledata\<close> HDU of exposures.fits. The columns the notebook reads are
  \<open>snr2frac\<close>, \<open>exptime\<close> and \<open>avail\<close>; no tile identifier is read from it. The fields
  are prefixed, since the exposures table has columns of the same names.
\<close>

record tilestat =
  tile_snr2frac :: real
  tile_exptime :: real
  tile_avail :: int

text \<open>\<open>numpy.min\<close> and \<open>numpy.max\<close>: ValueError on an array of size zero.\<close>

definition numpy_min :: "'a::linorder list \<Rightarrow> error + 'a" where
  "numpy_min xs = (case xs of [] \<Rightarrow> Inl ValueError | x # rest \<Rightarrow> Inr (fold min rest x))"

definition numpy_max :: "'a::linorder list \<Rightarrow> error + 'a" where
  "numpy_max xs = (case xs of [] \<Rightarrow> Inl ValueError | x # rest \<Rightarrow> Inr (fold max rest x))"

text \<open>
  \<^verbatim>\<open>
  print('Survey runs {} to {} and observes {} tiles with {} exposures.'
        .format(
            desisurvey.utils.get_date(numpy.min(exposures['mjd'])),
            desisurvey.utils.get_date(numpy.max(exposures['mjd'])),
            numpy.sum(tilestats['snr2frac'] >= 1), len(exposures)))
  \<close>
  The printed line is modelled by the four values substituted into it, in the order of
  the placeholders; the arguments are evaluated from left to right. The conversion
  \<open>get_date\<close> of the external library is a parameter.
\<close>

definition survey_summary ::
  "(real \<Rightarrow> 'd) \<Rightarrow> exposure list \<Rightarrow> tilestat list \<Rightarrow> error + ('d \<times> 'd \<times> nat \<times> nat)" where
  "survey_summary get_date exposures tilestats =
     (case numpy_min (map mjd exposures) of
        Inl e \<Rightarrow> Inl e
      | Inr lo \<Rightarrow>
          (case numpy_max (map mjd exposures) of
             Inl e \<Rightarrow> Inl e
           | Inr hi \<Rightarrow>
               Inr (get_date lo, get_date hi,
                    count_true (map (\<lambda>s. s \<ge> 1) (map tile_snr2frac tilestats)),
                    length exposures)))"

text \<open>A date function for concrete runs: the whole day number of the timestamp.\<close>

definition day_of :: "real \<Rightarrow> int" where
  "day_of x = \<lfloor>x\<rfloor>"

definition two_tilestats :: "tilestat list" where
  "two_tilestats =
     [\<lparr>tile_snr2frac = 21/20, tile_exptime = 1200, tile_avail = 0\<rparr>,
      \<lparr>tile_snr2frac = 4/5, tile_exptime = 900, tile_avail = 30\<rparr>]"

subsection \<open>Sky maps of a per-tile quantity\<close>

text \<open>
  Modelled from the spec: \<open>desisurvey.plots.plot_sky_passes\<close>, which the notebook calls in
  \<^verbatim>\<open>
  desisurvey.plots.plot_sky_passes(tiles.tileRA, tiles.tileDEC, tiles.passnum,
                                   tilestats['avail'], label=...)
  desisurvey.plots.plot_sky_passes(tiles.tileRA, tiles.tileDEC, tiles.passnum,
                                   tilestats['snr2frac'], label='snr2frac')
  \<close>
  is a function of an external library and is not among the sources. The spec
  describes the tile statistics as row-aligned with the external tile catalog by index,
  not by an explicit join key, and the notebook says that the tiles object is
  row-matched to the tilestats HDU. The model is that pairing: the helper receives
  four arrays of per-tile values and draws, for each position \<open>i\<close>, the value \<open>z[i]\<close> at the
  coordinates \<open>(ra[i], dec[i])\<close> in the map of pass \<open>passnum[i]\<close>. \<open>sky_pass_point\<close> is the
  point drawn for position \<open>i\<close>; there is none where one of the arrays has no entry. The
  projection and the colours of the map are not modelled.
\<close>

definition sky_pass_point ::
  "real list \<Rightarrow> real list \<Rightarrow> int list \<Rightarrow> 'z list \<Rightarrow> nat \<Rightarrow> (real \<times> real \<times> int \<times> 'z) option" where
  "sky_pass_point ra dec pass z i =
     (if i < length ra \<and> i < length dec \<and> i < length pass \<and> i < length z
      then Some (ra ! i, dec ! i, pass ! i, z ! i) else None)"

text \<open>
  The two calls of the notebook: the catalog's coordinates and passes with the column
  \<open>avail\<close> of \<open>tilestats\<close>, and with its column \<open>snr2frac\<close>.
\<close>

definition avail_sky_map :: "tiles \<Rightarrow> tilestat list \<Rightarrow> nat \<Rightarrow> (real \<times> real \<times> int \<times> int) option" where
  "avail_sky_map tiles tilestats =
     sky_pass_point (tileRA tiles) (tileDEC tiles) (passnum tiles) (map tile_avail tilestats)"

definition snr2frac_sky_map :: "tiles \<Rightarrow> tilestat list \<Rightarrow> nat \<Rightarrow> (real \<times> real \<times> int \<times> real) option" where
  "snr2frac_sky_map tiles tilestats =
     sky_pass_point (tileRA tiles) (tileDEC tiles) (passnum tiles) (map tile_snr2frac tilestats)"

text \<open>
  The statistics of two tiles by tile identifier, for concrete runs: what the simulation
  recorded for tile 1 and for tile 2 (any other identifier gets the second row).
\<close>

definition stats_of_tile :: "int \<Rightarrow> tilestat" where
  "stats_of_tile t = (if t = 1 then two_tilestats ! 0 else two_tilestats ! 1)"

subsection \<open>IEEE 754 binary64 arithmetic\<close>

text \<open>
  The float columns and arrays of the notebooks are numpy \<open>float64\<close> arrays. A value is a
  finite number, given by the rational it denotes, an infinity or NaN. The two zeros
  are one value: the sign of a zero shows only in a division by it, and the divisors
  that are zero in the code below are sums, which are \<open>+0\<close>.
\<close>

datatype fval = Fin rat | PosInf | NegInf | NaN

text \<open>
  Rounding to nearest, ties to even. A nonzero number of exponent \<open>e\<close> (its magnitude
  lies between \<open>2^e\<close> and \<open>2^(e+1)\<close>) is scaled by \<open>2^(52-e)\<close>, rounded to the nearest integer
  with ties to the even one, and scaled back; below \<open>2^-1022\<close> the exponent stays \<open>-1022\<close>
  (subnormal numbers). \<open>find_exp\<close> searches the exponent from 0 with enough steps for the
  whole range. \<open>round64\<close> is the result of an operation whose exact value is \<open>x\<close>: the
  rounded number, or an infinity when that lies beyond the largest float.
\<close>

definition pow2 :: "int \<Rightarrow> rat" where
  "pow2 e = (if 0 \<le> e then 2 ^ nat e else 1 / 2 ^ nat (- e))"

fun find_exp :: "nat \<Rightarrow> int \<Rightarrow> rat \<Rightarrow> int" where
  "find_exp 0 e x = e"
| "find_exp (Suc fuel) e x =
     (if x < pow2 e then find_exp fuel (e - 1) x
      else if pow2 (e + 1) \<le> x then find_exp fuel (e + 1) x
      else e)"

definition round_even :: "rat \<Rightarrow> int" where
  "round_even q =
     (let f = \<lfloor>q\<rfloor>; d = q - of_int f
      in if d < 1/2 then f else if 1/2 < d then f + 1 else if even f then f else f + 1)"

definition binary64 :: "rat \<Rightarrow> rat" where
  "binary64 x =
     (if x = 0 then 0
      else let e = max (find_exp 1075 0 \<bar>x\<bar>) (- 1022);
               m = round_even (\<bar>x\<bar> / pow2 (e - 52))
           in sgn x * of_int m * pow2 (e - 52))"

definition round64 :: "rat \<Rightarrow> fval" where
  "round64 x =
     (let y = binary64 x
      in if pow2 1024 \<le> \<bar>y\<bar> then (if 0 < x then PosInf else NegInf) else Fin y)"

text \<open>
  The four operations on float64 arrays, elementwise. numpy raises no exception for an
  overflow, a division by zero or an invalid operation (it prints a warning): the
  result is an infinity or NaN as IEEE 754 defines it.
\<close>

fun fneg :: "fval \<Rightarrow> fval" where
  "fneg (Fin x) = Fin (- x)"
| "fneg PosInf = NegInf"
| "fneg NegInf = PosInf"
| "fneg NaN = NaN"

definition fadd :: "fval \<Rightarrow> fval \<Rightarrow> fval" where
  "fadd a b =
     (case (a, b) of
        (NaN, _) \<Rightarrow> NaN
      | (_, NaN) \<Rightarrow> NaN
      | (Fin x, Fin y) \<Rightarrow> round64 (x + y)
      | (PosInf, NegInf) \<Rightarrow> NaN
      | (NegInf, PosInf) \<Rightarrow> NaN
      | (PosInf, _) \<Rightarrow> PosInf
      | (NegInf, _) \<Rightarrow> NegInf
      | (_, PosInf) \<Rightarrow> PosInf
      | (_, NegInf) \<Rightarrow> NegInf)"

definition fsub :: "fval \<Rightarrow> fval \<Rightarrow> fval" where
  "fsub a b = fadd a (fneg b)"

definition fmul :: "fval \<Rightarrow> fval \<Rightarrow> fval" where
  "fmul a b =
     (case (a, b) of
        (NaN, _) \<Rightarrow> NaN
      | (_, NaN) \<Rightarrow> NaN
      | (Fin x, Fin y) \<Rightarrow> round64 (x * y)
      | (Fin x, PosInf) \<Rightarrow> (if x = 0 then NaN else if 0 < x then PosInf else NegInf)
      | (Fin x, NegInf) \<Rightarrow> (if x = 0 then NaN else if 0 < x then NegInf else PosInf)
      | (PosInf, Fin y) \<Rightarrow> (if y = 0 then NaN else if 0 < y then PosInf else NegInf)
      | (NegInf, Fin y) \<Rightarrow> (if y = 0 then NaN else if 0 < y then NegInf else PosInf)
      | (PosInf, PosInf) \<Rightarrow> PosInf
      | (NegInf, NegInf) \<Rightarrow> PosInf
      | (PosInf, NegInf) \<Rightarrow> NegInf
      | (NegInf, PosInf) \<Rightarrow> NegInf)"

definition fdiv :: "fval \<Rightarrow> fval \<Rightarrow> fval" where
  "fdiv a b =
     (case (a, b) of
        (NaN, _) \<Rightarrow> NaN
      | (_, NaN) \<Rightarrow> NaN
      | (Fin x, Fin y) \<Rightarrow>
          (if y \<noteq> 0 then round64 (x / y)
           else if x = 0 then NaN else if 0 < x then PosInf else NegInf)
      | (Fin x, _) \<Rightarrow> Fin 0
      | (PosInf, Fin y) \<Rightarrow> (if 0 \<le> y then PosInf else NegInf)
      | (NegInf, Fin y) \<Rightarrow> (if 0 \<le> y then NegInf else PosInf)
      | (_, _) \<Rightarrow> NaN)"

text \<open>
  Ranges of magnitudes between two powers of two, for the statements about rounding
  errors: a number is of moderate size when its magnitude lies between \<open>2^-500\<close> and
  \<open>2^500\<close>.
\<close>

definition span :: "int \<Rightarrow> int \<Rightarrow> rat \<Rightarrow> bool" where
  "span lo hi x \<longleftrightarrow> pow2 lo \<le> \<bar>x\<bar> \<and> \<bar>x\<bar> \<le> pow2 hi"

definition moderate :: "rat \<Rightarrow> bool" where
  "moderate x \<longleftrightarrow> span (- 500) 500 x"

subsection \<open>The rebinning matrix of the redrock notebook\<close>

text \<open>
  \<^verbatim>\<open>
  i = np.arange(len(fit),dtype=float)
  A = i - i[:,None]
  rebin = 5
  w = abs(A)<rebin
  A[w]=1.
  A[~w]=0
  A /= A.sum(axis=1).reshape(-1,1)
  plot(wave,A.dot(flux))
  plot(wave,A.dot(fit))
  \<close>
  \<open>n\<close> is \<open>len(fit)\<close>. The entries are float64 numbers. Up to the row sums every value is
  an integer below \<open>n\<close> in magnitude, on which float arithmetic is exact (for \<open>n\<close> below
  \<open>2^53\<close>), so these steps are written on the numbers themselves; the division of the
  last assignment is the float division.
\<close>

definition rebin_matrix :: "nat \<Rightarrow> fval list list" where
  "rebin_matrix n =
     (let i = map of_nat [0..<n];
          A = map (\<lambda>ir. map (\<lambda>ic. ic - ir) i) i;
          rebin = 5;
          w = map (map (\<lambda>a. \<bar>a\<bar> < rebin)) A;
          A1 = map2 (map2 (\<lambda>a b. if b then 1 else a)) A w;
          A0 = map2 (map2 (\<lambda>a b. if \<not> b then 0 else a)) A1 w;
          s = map sum_list A0
      in map2 (\<lambda>row sr. map (\<lambda>a. fdiv (Fin a) (Fin sr)) row) A0 s)"

text \<open>
  \<open>A.dot(x)\<close> for a matrix and a vector of float64: every product and every sum is
  rounded. The products of a row are added from left to right; numpy leaves the order
  of the additions to the BLAS library it is built with. ValueError when the shapes do
  not fit.
\<close>

definition dot_row :: "fval list \<Rightarrow> fval list \<Rightarrow> fval" where
  "dot_row row x = foldl (\<lambda>s (a, b). fadd s (fmul a b)) (Fin 0) (zip row x)"

definition dot :: "fval list list \<Rightarrow> fval list \<Rightarrow> error + fval list" where
  "dot A x =
     (if list_all (\<lambda>row. length row = length x) A then Inr (map (\<lambda>row. dot_row row x) A)
      else Inl ValueError)"

text \<open>The number of columns of an \<open>n\<close>-column matrix within distance 4 of the column \<open>r\<close>.\<close>

definition window :: "nat \<Rightarrow> nat \<Rightarrow> nat" where
  "window n r = length (filter (\<lambda>c. \<bar>int c - int r\<bar> < 5) [0..<n])"

subsection \<open>Joining the redshift catalog with the truth table\<close>

text \<open>
  The rows of the redshift catalog and of the truth table, as records of the columns
  the notebook reads; both tables carry the target identifier.
\<close>

record target_row =
  TARGETID :: int

record zcat_row = target_row +
  Z :: real
  SPECTYPE :: string

record truth_row = target_row +
  TRUEZ :: real
  TEMPLATETYPE :: string

text \<open>
  Modelled from the spec: \<open>astropy.table.join\<close>, which the notebook calls in
  \<^verbatim>\<open>ztruth = astropy.table.join(zcat, truth_dark, keys='TARGETID')\<close>,
  is a function of an external library and is not among the sources. The spec
  describes the call as joining the rows of independently stored tables by the shared
  target identifier, the notebook calls it a merge in a database-like manner, and the
  call leaves the join type at its default, the inner join. The model is that join on
  lists of rows: a row of the result is a pair of a left and a right row with the same
  key, one for every such pair. The order of the result's rows and the names of its
  columns are not modelled.
\<close>

definition table_join :: "('a \<Rightarrow> 'k) \<Rightarrow> ('b \<Rightarrow> 'k) \<Rightarrow> 'a list \<Rightarrow> 'b list \<Rightarrow> ('a \<times> 'b) list" where
  "table_join ka kb left right =
     concat (map (\<lambda>a. map (\<lambda>b. (a, b)) (filter (\<lambda>b. ka a = kb b) right)) left)"

definition ztruth :: "zcat_row list \<Rightarrow> truth_row list \<Rightarrow> (zcat_row \<times> truth_row) list" where
  "ztruth zcat truth_dark = table_join TARGETID TARGETID zcat truth_dark"

definition demo_zcat :: "zcat_row list" where
  "demo_zcat =
     [\<lparr>TARGETID = 11, Z = 1/2, SPECTYPE = ''GALAXY''\<rparr>,
      \<lparr>TARGETID = 12, Z = 2, SPECTYPE = ''QSO''\<rparr>,
      \<lparr>TARGETID = 14, Z = 0, SPECTYPE = ''STAR''\<rparr>]"

definition demo_truth_dark :: "truth_row list" where
  "demo_truth_dark =
     [\<lparr>TARGETID = 12, TRUEZ = 2, TEMPLATETYPE = ''QSO''\<rparr>,
      \<lparr>TARGETID = 13, TRUEZ = 1, TEMPLATETYPE = ''ELG''\<rparr>,
      \<lparr>TARGETID = 11, TRUEZ = 1/2, TEMPLATETYPE = ''LRG''\<rparr>]"

subsection \<open>The velocity offset of the measured redshifts\<close>

text \<open>
  \<^verbatim>\<open>dv = 3e5 * (ztruth['Z'] - ztruth['TRUEZ']) / (1 + ztruth['TRUEZ'])\<close>
  The two columns of \<open>ztruth\<close> are float64 arrays of the same length, here the lists
  \<open>Zc\<close> and \<open>TRUEZc\<close> of their values; row \<open>i\<close> of \<open>ztruth\<close> holds \<open>Zc ! i\<close> and \<open>TRUEZc ! i\<close>. The
  expression is evaluated elementwise and from left to right: the difference, its
  product with 300000, the sum, the quotient, each rounded. There is no test of the
  divisor.
\<close>

definition dv :: "fval list \<Rightarrow> fval list \<Rightarrow> fval list" where
  "dv Zc TRUEZc =
     map2 (\<lambda>z t. fdiv (fmul (Fin 300000) (fsub z t)) (fadd (Fin 1) t)) Zc TRUEZc"

section \<open>The notebooks as programs over an explicit world\<close>

subsection \<open>Tables with named columns\<close>

text \<open>
  The catalogs of the second notebook are \<open>astropy.table.Table\<close> objects: named columns
  of equal length, each a numpy array of one type. String cells are the values Python
  reads from the array.
\<close>

datatype column = StrCol "string list" | IntCol "int list" | FloatCol "real list"

type_synonym table = "string \<Rightarrow> column option"

text \<open>
  \<open>str.strip()\<close> with no argument removes leading and trailing whitespace; the
  whitespace characters are those of an ASCII byte string.
\<close>

definition is_space :: "char \<Rightarrow> bool" where
  "is_space c \<longleftrightarrow>
     c = CHR '' '' \<or> c = CHR 0x09 \<or> c = CHR 0x0A \<or> c = CHR 0x0B \<or> c = CHR 0x0C \<or> c = CHR 0x0D"

definition strip :: "string \<Rightarrow> string" where
  "strip s = rev (dropWhile is_space (rev (dropWhile is_space s)))"

text \<open>\<open>np.char.strip(a)\<close>: elementwise on a string array, TypeError on any other array.\<close>

definition char_strip :: "column \<Rightarrow> error + column" where
  "char_strip c = (case c of StrCol xs \<Rightarrow> Inr (StrCol (map strip xs)) | _ \<Rightarrow> Inl TypeError)"

text \<open>
  \<^verbatim>\<open>t['TEMPLATETYPE'][:] = np.char.strip(t['TEMPLATETYPE'][:])\<close>
  on a table \<open>t\<close>: the column is looked up (KeyError when the table has none of that
  name), stripped, and written back in place; a stripped string is never longer than
  the original, so it fits the column's width.
\<close>

definition strip_templatetype :: "table \<Rightarrow> error + table" where
  "strip_templatetype t =
     (case t ''TEMPLATETYPE'' of
        None \<Rightarrow> Inl KeyError
      | Some c \<Rightarrow>
          (case char_strip c of
             Inl e \<Rightarrow> Inl e
           | Inr c' \<Rightarrow> Inr (t(''TEMPLATETYPE'' \<mapsto> c'))))"

subsection \<open>Values, the world, external calls\<close>

text \<open>
  A value a notebook name can be bound to. \<open>Object\<close> is an object of an external library
  whose content the notebooks never take apart (spectra, templates, fit results).
\<close>

datatype pyval =
    Tab table
  | Exposures "exposure list"
  | TileStats "tilestat list"
  | Tiles tiles
  | Counts "nat list list"
  | Num int
  | Txt string
  | Tuple "pyval list"
  | Object nat

text \<open>
  The state a notebook session can read or change: the file system (files by absolute
  path with their bytes, and the directories), what has been sent to network
  endpoints, the process environment, the working directory, and the data names bound
  in the kernel. Names of imported modules and of functions defined with \<open>def\<close> are not
  tracked.
\<close>

record world =
  files :: "string \<Rightarrow> string option"
  dirs :: "string set"
  sent :: "string list"
  environ :: "string \<Rightarrow> string option"
  cwd :: string
  vars :: "string \<Rightarrow> pyval option"

text \<open>The readers of the external libraries the notebooks call on a file.\<close>

datatype reader =
    FitsGetdata "string option"
  | TableRead nat
  | RestoreStats
  | ReadSpectra
  | FitsOpen
  | BossReadSpectra

text \<open>
  What the external libraries do is a parameter of every notebook. \<open>parse\<close> is what a
  reader makes of the file it is asked to open: of its bytes, or of there being no such
  file (\<open>None\<close>). Which exception a reader raises for an absent or a malformed file is
  the reader's business (\<open>astropy\<close> raises FileNotFoundError for an absent file, \<open>fitsio\<close> an
  OSError), so it is part of the parameter. \<open>call\<close> is the result
  of the library call at a source line, computed from the world it can read; \<open>loop\<close> is
  the effect of a \<open>for\<close> loop over external data on the names its body assigns; \<open>render\<close>
  is a statement that only displays (a plot, a print, an import): it raises or not.
  By their types none of them changes the world or a value bound to a name: that the
  external plotting, fitting and reading routines write nothing and leave the
  arguments they are passed as they are is an assumption of the model, not proved.
\<close>

record externals =
  parse :: "reader \<Rightarrow> string option \<Rightarrow> error + pyval"
  call :: "nat \<Rightarrow> world \<Rightarrow> error + pyval"
  loop :: "nat \<Rightarrow> world \<Rightarrow> error option \<times> (string \<Rightarrow> pyval option)"
  render :: "nat \<Rightarrow> world \<Rightarrow> error option"
  get_date :: "real \<Rightarrow> string"

subsection \<open>Statements\<close>

text \<open>
  A statement maps the world to the exception it raised, if any, and the world it
  leaves. A raised exception is never caught: the notebooks contain no \<open>try\<close>.
\<close>

type_synonym stmt = "world \<Rightarrow> error option \<times> world"

text \<open>A sequence of statements stops at the first that raises.\<close>

fun run :: "stmt list \<Rightarrow> stmt" where
  "run [] w = (None, w)"
| "run (s # ss) w = (case s w of (None, w') \<Rightarrow> run ss w' | (Some e, w') \<Rightarrow> (Some e, w'))"

text \<open>The left side of an assignment: a name, or a tuple of names.\<close>

datatype target = Var string | Unpack "string list"

definition bind :: "target \<Rightarrow> pyval \<Rightarrow> world \<Rightarrow> error + world" where
  "bind tgt v w =
     (case tgt of
        Var x \<Rightarrow> Inr (w\<lparr>vars := (vars w)(x \<mapsto> v)\<rparr>)
      | Unpack xs \<Rightarrow>
          (case v of
             Tuple vs \<Rightarrow>
               if length vs = length xs
               then Inr (w\<lparr>vars := vars w ++ map_of (rev (zip xs vs))\<rparr>)
               else Inl ValueError
           | _ \<Rightarrow> Inl TypeError))"

text \<open>\<open>tgt = rhs\<close>: the right side is evaluated first; if it raises nothing is bound.\<close>

definition assign :: "target \<Rightarrow> (world \<Rightarrow> error + pyval) \<Rightarrow> stmt" where
  "assign tgt rhs w =
     (case rhs w of
        Inl e \<Rightarrow> (Some e, w)
      | Inr v \<Rightarrow> (case bind tgt v w of Inl e \<Rightarrow> (Some e, w) | Inr w' \<Rightarrow> (None, w')))"

text \<open>A statement that only displays.\<close>

definition display :: "(world \<Rightarrow> error option) \<Rightarrow> stmt" where
  "display f w = (f w, w)"

text \<open>
  A \<open>for\<close> loop over external data whose body assigns the names \<open>xs\<close>: the names it has
  bound when it ends or raises get their new values, everything else stays.
\<close>

definition rebind :: "string list \<Rightarrow> (world \<Rightarrow> error option \<times> (string \<Rightarrow> pyval option)) \<Rightarrow> stmt" where
  "rebind xs f w = (case f w of (r, m) \<Rightarrow> (r, w\<lparr>vars := vars w ++ (m |` set xs)\<rparr>))"

subsection \<open>Paths and files\<close>

definition is_abs :: "string \<Rightarrow> bool" where
  "is_abs p = (case p of [] \<Rightarrow> False | c # _ \<Rightarrow> c = CHR ''/'')"

text \<open>\<open>os.path.join(a, b)\<close> and \<open>os.path.join(a, *bs)\<close> on POSIX.\<close>

definition path_join2 :: "string \<Rightarrow> string \<Rightarrow> string" where
  "path_join2 a b =
     (if is_abs b then b
      else if a = [] \<or> last a = CHR ''/'' then a @ b
      else a @ ''/'' @ b)"

definition path_join :: "string \<Rightarrow> string list \<Rightarrow> string" where
  "path_join a bs = foldl path_join2 a bs"

text \<open>
  A reader called on a path: a relative path is taken from the working directory, and
  the reader gets what the file system holds there.
\<close>

definition read_file :: "(string option \<Rightarrow> error + pyval) \<Rightarrow> string \<Rightarrow> world \<Rightarrow> error + pyval" where
  "read_file rd p w = rd (files w (path_join2 (cwd w) p))"

text \<open>
  \<open>tgt = reader(path)\<close>: the path expression is evaluated, the file is read, the result
  is bound. There is no handler and no default value: a failure of any step is the
  statement's exception, raised before anything is bound.
\<close>

definition read_into ::
  "target \<Rightarrow> (string option \<Rightarrow> error + pyval) \<Rightarrow> (world \<Rightarrow> error + string) \<Rightarrow> stmt" where
  "read_into tgt rd path = assign tgt (\<lambda>w. case path w of Inl e \<Rightarrow> Inl e | Inr p \<Rightarrow> read_file rd p w)"

text \<open>
  \<open>os.environ[k]\<close>, \<open>os.environ[k] = v\<close>, \<open>os.chdir(d)\<close>, \<open>os.listdir(d)\<close>. The last two
  raise NotADirectoryError when the path names a file and FileNotFoundError when it
  names nothing.
\<close>

definition getenv :: "string \<Rightarrow> world \<Rightarrow> error + string" where
  "getenv k w = (case environ w k of None \<Rightarrow> Inl KeyError | Some v \<Rightarrow> Inr v)"

definition set_environ :: "string \<Rightarrow> (world \<Rightarrow> error + string) \<Rightarrow> stmt" where
  "set_environ k rhs w =
     (case rhs w of
        Inl e \<Rightarrow> (Some e, w)
      | Inr v \<Rightarrow> (None, w\<lparr>environ := (environ w)(k \<mapsto> v)\<rparr>))"

definition chdir :: "(world \<Rightarrow> error + string) \<Rightarrow> stmt" where
  "chdir path w =
     (case path w of
        Inl e \<Rightarrow> (Some e, w)
      | Inr d \<Rightarrow>
          if path_join2 (cwd w) d \<in> dirs w then (None, w\<lparr>cwd := path_join2 (cwd w) d\<rparr>)
          else if files w (path_join2 (cwd w) d) \<noteq> None then (Some NotADirectoryError, w)
          else (Some FileNotFoundError, w))"

definition listdir :: "(world \<Rightarrow> error + string) \<Rightarrow> world \<Rightarrow> error option" where
  "listdir path w =
     (case path w of
        Inl e \<Rightarrow> Some e
      | Inr d \<Rightarrow>
          if path_join2 (cwd w) d \<in> dirs w then None
          else if files w (path_join2 (cwd w) d) \<noteq> None then Some NotADirectoryError
          else Some FileNotFoundError)"

text \<open>\<open>os.path.join(os.environ[k], name)\<close>.\<close>

definition env_file :: "string \<Rightarrow> string \<Rightarrow> world \<Rightarrow> error + string" where
  "env_file k name w = (case getenv k w of Inl e \<Rightarrow> Inl e | Inr d \<Rightarrow> Inr (path_join d [name]))"

text \<open>Reading a name: NameError when it is unbound.\<close>

definition name_value :: "string \<Rightarrow> world \<Rightarrow> error + pyval" where
  "name_value x w = (case vars w x of None \<Rightarrow> Inl NameError | Some v \<Rightarrow> Inr v)"

text \<open>
  A name used as a table of exposures, as the tile catalog, as a string: an object of
  another kind has not the columns or attributes the code asks for.
\<close>

definition exposures_of :: "string \<Rightarrow> world \<Rightarrow> error + exposure list" where
  "exposures_of x w =
     (case name_value x w of
        Inl e \<Rightarrow> Inl e
      | Inr (Exposures es) \<Rightarrow> Inr es
      | Inr _ \<Rightarrow> Inl KeyError)"

definition tilestats_of :: "string \<Rightarrow> world \<Rightarrow> error + tilestat list" where
  "tilestats_of x w =
     (case name_value x w of
        Inl e \<Rightarrow> Inl e
      | Inr (TileStats ts) \<Rightarrow> Inr ts
      | Inr _ \<Rightarrow> Inl KeyError)"

definition tiles_of :: "string \<Rightarrow> world \<Rightarrow> error + tiles" where
  "tiles_of x w =
     (case name_value x w of
        Inl e \<Rightarrow> Inl e
      | Inr (Tiles t) \<Rightarrow> Inr t
      | Inr _ \<Rightarrow> Inl TypeError)"

definition text_of :: "string \<Rightarrow> world \<Rightarrow> error + string" where
  "text_of x w =
     (case name_value x w of
        Inl e \<Rightarrow> Inl e
      | Inr (Txt s) \<Rightarrow> Inr s
      | Inr _ \<Rightarrow> Inl TypeError)"


subsection \<open>First notebook: survey simulation outputs\<close>

text \<open>The summary line is printed unless computing one of its values raises.\<close>

definition print_summary :: "externals \<Rightarrow> world \<Rightarrow> error option" where
  "print_summary X w =
     (case exposures_of ''exposures'' w of
        Inl e \<Rightarrow> Some e
      | Inr es \<Rightarrow>
          (case tilestats_of ''tilestats'' w of
             Inl e \<Rightarrow> Some e
           | Inr ts \<Rightarrow>
               (case survey_summary (get_date X) es ts of Inl e \<Rightarrow> Some e | Inr _ \<Rightarrow> None)))"

text \<open>\<^verbatim>\<open>maxpass0 = numpy.max(tiles.tileID[tiles.passnum == 0])\<close>\<close>

definition maxpass0_rhs :: "world \<Rightarrow> error + pyval" where
  "maxpass0_rhs w =
     (case tiles_of ''tiles'' w of
        Inl e \<Rightarrow> Inl e
      | Inr t \<Rightarrow>
          if length (passnum t) \<noteq> length (tileID t) then Inl IndexError
          else (case numpy_max (select (tileID t) (map (\<lambda>p. p = 0) (passnum t))) of
                  Inl e \<Rightarrow> Inl e
                | Inr m \<Rightarrow> Inr (Num m)))"

text \<open>\<^verbatim>\<open>pass1 = exposures[exposures['tileid'] <= maxpass0]\<close>\<close>

definition pass1_rhs :: "world \<Rightarrow> error + pyval" where
  "pass1_rhs w =
     (case exposures_of ''exposures'' w of
        Inl e \<Rightarrow> Inl e
      | Inr es \<Rightarrow>
          (case name_value ''maxpass0'' w of
             Inl e \<Rightarrow> Inl e
           | Inr (Num m) \<Rightarrow> Inr (Exposures (select es (map (\<lambda>t. t \<le> m) (map tileid es))))
           | Inr _ \<Rightarrow> Inl TypeError))"

text \<open>\<^verbatim>\<open>print('First day: {}'.format(int(numpy.min(exposures['mjd']))))\<close>\<close>

definition print_first_day :: "world \<Rightarrow> error option" where
  "print_first_day w =
     (case exposures_of ''exposures'' w of
        Inl e \<Rightarrow> Some e
      | Inr es \<Rightarrow> (case numpy_min (map mjd es) of Inl e \<Rightarrow> Some e | Inr _ \<Rightarrow> None))"

text \<open>\<open>'{:03}'.format(n)\<close>: the decimal digits of \<open>n\<close>, padded with zeros to three.\<close>

definition digit_char :: "nat \<Rightarrow> char" where
  "digit_char d = char_of (48 + d)"

fun decimal :: "nat \<Rightarrow> string" where
  "decimal n = (if n < 10 then [digit_char n] else decimal (n div 10) @ [digit_char (n mod 10)])"

definition fmt03 :: "nat \<Rightarrow> string" where
  "fmt03 n = replicate (3 - length (decimal n)) CHR ''0'' @ decimal n"

text \<open>\<^verbatim>\<open>os.path.join(parentdir, '{:03}'.format(direc), 'exposures.fits')\<close>\<close>

definition realization_file :: "nat \<Rightarrow> world \<Rightarrow> error + string" where
  "realization_file direc w =
     (case text_of ''parentdir'' w of
        Inl e \<Rightarrow> Inl e
      | Inr d \<Rightarrow> Inr (path_join d [fmt03 direc, ''exposures.fits'']))"

text \<open>
  \<^verbatim>\<open>completed.append(completed_in_timerange(exposures0, 58821, 58821+365))\<close>
  The list \<open>completed\<close> grows by the counts, unless the call raises.
\<close>

definition append_completed :: stmt where
  "append_completed w =
     (case name_value ''completed'' w of
        Inl e \<Rightarrow> (Some e, w)
      | Inr (Counts cs) \<Rightarrow>
          (case exposures_of ''exposures0'' w of
             Inl e \<Rightarrow> (Some e, w)
           | Inr es \<Rightarrow>
               (case tiles_of ''tiles'' w of
                  Inl e \<Rightarrow> (Some e, w)
                | Inr t \<Rightarrow>
                    (case completed_in_timerange t es 58821 (58821 + 365) of
                       Inl e \<Rightarrow> (Some e, w)
                     | Inr counts \<Rightarrow>
                         (None, w\<lparr>vars := (vars w)(''completed'' \<mapsto> Counts (cs @ [counts]))\<rparr>))))
      | Inr _ \<Rightarrow> (Some TypeError, w))"

text \<open>
  The body of \<open>for direc in range(100)\<close> for one value of \<open>direc\<close>: one realization's
  exposures are read and its counts appended.
\<close>

definition realization :: "externals \<Rightarrow> nat \<Rightarrow> stmt list" where
  "realization X direc =
     [assign (Var ''direc'') (\<lambda>w. Inr (Num (int direc))),
      read_into (Var ''exposures0'') (parse X (FitsGetdata None)) (realization_file direc),
      append_completed]"

text \<open>
  The code cells of the notebook in order, one entry per statement, with consecutive
  statements that only display (the calls that draw one plot) as one entry; the number
  of a \<open>render\<close>, \<open>call\<close> or \<open>loop\<close> is the source line where the statement starts. Cells
  that hold only comments and the \<open>def\<close> of \<open>completed_in_timerange\<close> bind no data and are
  left out.
\<close>

definition survey_load :: "externals \<Rightarrow> stmt list" where
  "survey_load X =
     [display (render X 83),
      display (render X 99),
      display (render X 120),
      display (render X 149),
      set_environ ''DESISURVEY_OUTPUT''
        (\<lambda>w. Inr ''/global/cfs/cdirs/desi/datachallenge/surveysim2018/weather/000''),
      display (listdir (getenv ''DESISURVEY_OUTPUT'')),
      read_into (Var ''exposures'') (parse X (FitsGetdata (Some ''exposures'')))
        (env_file ''DESISURVEY_OUTPUT'' ''exposures.fits''),
      read_into (Var ''tilestats'') (parse X (FitsGetdata (Some ''tiledata'')))
        (env_file ''DESISURVEY_OUTPUT'' ''exposures.fits'')]"

definition survey_tiles :: "externals \<Rightarrow> stmt list" where
  "survey_tiles X =
     [display (print_summary X),
      display (render X 230),
      assign (Var ''tiles'') (call X 254),
      display (render X 270),
      display (render X 300),
      display (render X 320),
      display (render X 338),
      display (render X 356),
      display (render X 384),
      display (render X 407),
      display (render X 480),
      display (render X 496),
      display (render X 514),
      assign (Var ''maxpass0'') maxpass0_rhs,
      assign (Var ''pass1'') pass1_rhs,
      display (render X 534),
      read_into (Var ''stats'') (parse X RestoreStats)
        (env_file ''DESISURVEY_OUTPUT'' ''stats.fits'')]"

definition survey_weather :: "externals \<Rightarrow> stmt list" where
  "survey_weather X =
     [display (render X 576),
      display (render X 593),
      display (render X 609),
      display print_first_day,
      assign (Var ''completed'') (\<lambda>w. Inr (Counts [])),
      assign (Var ''parentdir'')
        (\<lambda>w. Inr (Txt ''/global/cfs/cdirs/desi/datachallenge/surveysim2018/weather''))]
     @ concat (map (realization X) [0..<100])
     @ [display (render X 676)]"

definition notebook_survey :: "externals \<Rightarrow> stmt list" where
  "notebook_survey X = survey_load X @ survey_tiles X @ survey_weather X"

subsection \<open>Second notebook: data challenge outputs and input truth\<close>

text \<open>
  The in-place strip of the \<open>TEMPLATETYPE\<close> column of the table bound to a name. Every
  table of the notebook is an object of its own (each \<open>Table.read\<close> makes a new one),
  so writing into one table changes the value of one name.
\<close>

definition strip_column_of :: "string \<Rightarrow> stmt" where
  "strip_column_of x w =
     (case name_value x w of
        Inl e \<Rightarrow> (Some e, w)
      | Inr (Tab t) \<Rightarrow>
          (case strip_templatetype t of
             Inl e \<Rightarrow> (Some e, w)
           | Inr t' \<Rightarrow> (None, w\<lparr>vars := (vars w)(x \<mapsto> Tab t')\<rparr>))
      | Inr _ \<Rightarrow> (Some TypeError, w))"

text \<open>
  \<^verbatim>\<open>
  truth_bright['TEMPLATETYPE'][:] = np.char.strip(truth_bright['TEMPLATETYPE'][:])
  truth_dark['TEMPLATETYPE'][:] = np.char.strip(truth_dark['TEMPLATETYPE'][:])
  print('Updated set of template types:', set(...) | set(...))
  \<close>
\<close>

definition strip_cell :: "externals \<Rightarrow> stmt list" where
  "strip_cell X =
     [strip_column_of ''truth_bright'',
      strip_column_of ''truth_dark'',
      display (render X 856)]"

text \<open>
  \<^verbatim>\<open>os.chdir(os.path.join(os.environ['DESI_ROOT'], 'datachallenge', 'reference_runs',
                        reference_run))\<close>
\<close>

definition reference_run_dir :: "world \<Rightarrow> error + string" where
  "reference_run_dir w =
     (case getenv ''DESI_ROOT'' w of
        Inl e \<Rightarrow> Inl e
      | Inr d \<Rightarrow>
          (case text_of ''reference_run'' w of
             Inl e \<Rightarrow> Inl e
           | Inr r \<Rightarrow> Inr (path_join d [''datachallenge'', ''reference_runs'', r])))"

text \<open>\<^verbatim>\<open>os.path.join(os.getcwd(), 'spectro', 'redux')\<close>\<close>

definition redux_dir :: "world \<Rightarrow> error + string" where
  "redux_dir w = Inr (path_join (cwd w) [''spectro'', ''redux''])"

text \<open>\<^verbatim>\<open>datadir+'/targets/008/truth-0084m085.fits'\<close>\<close>

definition truth_file :: "world \<Rightarrow> error + string" where
  "truth_file w =
     (case text_of ''datadir'' w of
        Inl e \<Rightarrow> Inl e
      | Inr d \<Rightarrow> Inr (d @ ''/targets/008/truth-0084m085.fits''))"

definition truth_load :: "externals \<Rightarrow> stmt list" where
  "truth_load X =
     [display (render X 799),
      assign (Var ''reference_run'') (\<lambda>w. Inr (Txt ''19.12'')),
      display (render X 804),
      chdir reference_run_dir,
      read_into (Var ''zcat'') (parse X (TableRead 1))
        (\<lambda>w. Inr ''spectro/redux/mini/zcatalog-mini.fits''),
      read_into (Var ''targets_bright'') (parse X (TableRead 1))
        (\<lambda>w. Inr ''targets/targets-bright.fits''),
      read_into (Var ''targets_dark'') (parse X (TableRead 1))
        (\<lambda>w. Inr ''targets/targets-dark.fits''),
      read_into (Var ''truth_bright'') (parse X (TableRead 1))
        (\<lambda>w. Inr ''targets/truth-bright.fits''),
      read_into (Var ''truth_dark'') (parse X (TableRead 1))
        (\<lambda>w. Inr ''targets/truth-dark.fits'')]"

definition truth_compare :: "externals \<Rightarrow> stmt list" where
  "truth_compare X =
     [display (render X 877),
      display (render X 878),
      display (render X 879),
      assign (Var ''ztruth'') (call X 888),
      display (render X 889),
      assign (Var ''dv'') (call X 905),
      display (render X 906),
      rebind [''i'', ''objtype'', ''ii''] (loop X 907),
      display (render X 912),
      display (render X 932),
      set_environ ''DESI_SPECTRO_REDUX'' redux_dir,
      set_environ ''SPECPROD'' (\<lambda>w. Inr ''mini''),
      assign (Var ''specfile'') (call X 951),
      read_into (Var ''spectra'') (parse X ReadSpectra) (text_of ''specfile''),
      assign (Var ''itarget'') (\<lambda>w. Inr (Num 7)),
      display (render X 962),
      display (render X 973),
      assign (Var ''ii'') (call X 989),
      display (render X 990),
      assign (Var ''datadir'') (\<lambda>w. Inr (Txt ''/global/cfs/cdirs/desi/datachallenge/dc17a-twopct'')),
      read_into (Var ''fx'') (parse X FitsOpen) truth_file,
      display (render X 1022),
      assign (Var ''truewave'') (call X 1023),
      assign (Var ''trueflux'') (call X 1024),
      assign (Var ''truemeta'') (call X 1025),
      assign (Var ''itruth'') (call X 1043),
      assign (Var ''itarget'') (\<lambda>w. Inr (Num 7)),
      display (render X 1064),
      display (render X 1110)]"

definition notebook_truth :: "externals \<Rightarrow> stmt list" where
  "notebook_truth X = truth_load X @ strip_cell X @ truth_compare X"

subsection \<open>Third notebook: redrock on BOSS data\<close>

text \<open>
  \<^verbatim>\<open>
  if 'NERSC_HOST' in os.environ:
      spplate = "/global/cfs/cdirs/cosmo/data/sdss/dr14/eboss/spectro/redux/v5_10_0/3678/spPlate-3678-55208.fits"
  else:
      spplate="data/spPlate-3678-55208.fits"
  \<close>
\<close>

definition spplate_rhs :: "world \<Rightarrow> error + pyval" where
  "spplate_rhs w =
     (if environ w ''NERSC_HOST'' \<noteq> None
      then Inr (Txt ''/global/cfs/cdirs/cosmo/data/sdss/dr14/eboss/spectro/redux/v5_10_0/3678/spPlate-3678-55208.fits'')
      else Inr (Txt ''data/spPlate-3678-55208.fits''))"

text \<open>
  The statements of the notebook. The in-place updates of the arrays \<open>fit\<close> and \<open>A\<close>
  (\<open>fit *= (1+zbest)\<close>, \<open>A[w]=1.\<close>, \<open>A[~w]=0\<close>, \<open>A /= ...\<close>) give the name its new value; both
  arrays are fresh results no other name refers to.
\<close>

definition notebook_redrock :: "externals \<Rightarrow> stmt list" where
  "notebook_redrock X =
     [display (render X 26),
      assign (Var ''spplate'') spplate_rhs,
      read_into (Unpack [''targets'', ''meta'']) (parse X BossReadSpectra) (text_of ''spplate''),
      assign (Var ''dtargets'') (call X 75),
      assign (Var ''dwave'') (call X 76),
      assign (Var ''dtemplates'') (call X 77),
      assign (Var ''templates'') (call X 78),
      rebind [''dt'', ''templates''] (loop X 79),
      assign (Unpack [''zscan'', ''zfit'']) (call X 105),
      assign (Var ''targetid'') (call X 130),
      rebind [''template'', ''full_type''] (loop X 131),
      display (render X 136),
      display (render X 163),
      rebind [''i'', ''t''] (loop X 184),
      assign (Var ''tid'') (call X 206),
      assign (Var ''t_qso'') (call X 207),
      assign (Var ''minumum_number'') (\<lambda>w. Inr (Num 0)),
      assign (Var ''w'') (call X 213),
      assign (Var ''coeff'') (call X 216),
      assign (Var ''zbest'') (call X 217),
      assign (Var ''fit'') (call X 220),
      assign (Var ''fit'') (call X 223),
      assign (Var ''wave'') (call X 237),
      assign (Var ''flux'') (call X 238),
      display (render X 239),
      assign (Var ''i'') (call X 262),
      assign (Var ''A'') (call X 263),
      assign (Var ''rebin'') (\<lambda>w. Inr (Num 5)),
      assign (Var ''w'') (call X 265),
      assign (Var ''A'') (call X 266),
      assign (Var ''A'') (call X 267),
      assign (Var ''A'') (call X 268),
      display (render X 269),
      display (render X 270)]"


subsection \<open>Frames\<close>


text \<open>The column \<open>c\<close> of the table bound to the name \<open>x\<close>, if there is one.\<close>

definition column_of :: "world \<Rightarrow> string \<Rightarrow> string \<Rightarrow> column option" where
  "column_of w x c = (case vars w x of Some (Tab t) \<Rightarrow> t c | _ \<Rightarrow> None)"






subsection \<open>The file reads of the notebooks\<close>

text \<open>
  Every statement of the notebooks that reads a data file, as the position of the
  statement in its notebook, the target it binds, the reader it calls and the path
  expression it passes. First notebook: \<open>fits.getdata\<close> of the HDUs \<open>exposures\<close> and
  \<open>tiledata\<close> (source lines 194 and 195), the restore of \<open>SurveyStatistics\<close> (560), and
  \<open>fits.getdata\<close> in each of the 100 iterations of the loop over the realizations (666).
  Second notebook: the five \<open>Table.read\<close> (838 to 842), \<open>desispec.io.read_spectra\<close> (952)
  and \<open>astropy.io.fits.open\<close> (1021). Third notebook: \<open>boss.read_spectra\<close> (66). Library
  calls that open files of their own choice (the tile catalog of \<open>get_tiles\<close>, the
  templates of \<open>load_dist_templates\<close>) are among the calls, not here.
\<close>

type_synonym file_read = "nat \<times> target \<times> reader \<times> (world \<Rightarrow> error + string)"

definition survey_reads :: "file_read list" where
  "survey_reads =
     [(6, Var ''exposures'', FitsGetdata (Some ''exposures''),
         env_file ''DESISURVEY_OUTPUT'' ''exposures.fits''),
      (7, Var ''tilestats'', FitsGetdata (Some ''tiledata''),
         env_file ''DESISURVEY_OUTPUT'' ''exposures.fits''),
      (24, Var ''stats'', RestoreStats, env_file ''DESISURVEY_OUTPUT'' ''stats.fits'')]
     @ map (\<lambda>direc. (32 + 3 * direc, Var ''exposures0'', FitsGetdata None, realization_file direc))
         [0..<100]"

definition truth_reads :: "file_read list" where
  "truth_reads =
     [(4, Var ''zcat'', TableRead 1, \<lambda>w. Inr ''spectro/redux/mini/zcatalog-mini.fits''),
      (5, Var ''targets_bright'', TableRead 1, \<lambda>w. Inr ''targets/targets-bright.fits''),
      (6, Var ''targets_dark'', TableRead 1, \<lambda>w. Inr ''targets/targets-dark.fits''),
      (7, Var ''truth_bright'', TableRead 1, \<lambda>w. Inr ''targets/truth-bright.fits''),
      (8, Var ''truth_dark'', TableRead 1, \<lambda>w. Inr ''targets/truth-dark.fits''),
      (25, Var ''spectra'', ReadSpectra, text_of ''specfile''),
      (32, Var ''fx'', FitsOpen, truth_file)]"

definition redrock_reads :: "file_read list" where
  "redrock_reads = [(2, Unpack [''targets'', ''meta''], BossReadSpectra, text_of ''spplate'')]"

subsection \<open>A concrete session\<close>

text \<open>
  A small world for concrete runs of the second notebook: the five catalog files exist
  under the reference run directory, the spectra file does not. The truth files hold a
  table whose first \<open>TEMPLATETYPE\<close> is padded with spaces, as FITS stores it.
\<close>

definition demo_truth :: table where
  "demo_truth =
     [''TARGETID'' \<mapsto> IntCol [1, 2], ''TRUEZ'' \<mapsto> FloatCol [1/2, 3/2],
      ''TEMPLATETYPE'' \<mapsto> StrCol [''ELG   '', ''QSO'']]"

definition demo_catalog :: table where
  "demo_catalog = [''TARGETID'' \<mapsto> IntCol [2, 1], ''Z'' \<mapsto> FloatCol [3/2, 1/2]]"

definition demo_parse :: "reader \<Rightarrow> string option \<Rightarrow> error + pyval" where
  "demo_parse rd file =
     (case file of
        None \<Rightarrow> (if rd = BossReadSpectra then Inl OSError else Inl FileNotFoundError)
      | Some bytes \<Rightarrow>
          if bytes = ''truth'' then Inr (Tab demo_truth)
          else if bytes = ''catalog'' then Inr (Tab demo_catalog)
          else Inl OSError)"

definition demo_call :: "nat \<Rightarrow> world \<Rightarrow> error + pyval" where
  "demo_call n w = (if n = 951 then Inr (Txt ''spectro/redux/mini/spectra-64-5299.fits'') else Inr (Object n))"

definition demo_loop :: "nat \<Rightarrow> world \<Rightarrow> error option \<times> (string \<Rightarrow> pyval option)" where
  "demo_loop n w = (None, Map.empty)"

definition demo_render :: "nat \<Rightarrow> world \<Rightarrow> error option" where
  "demo_render n w = None"

definition demo_ext :: externals where
  "demo_ext = \<lparr>parse = demo_parse, call = demo_call, loop = demo_loop, render = demo_render,
     get_date = (\<lambda>x. ''day'')\<rparr>"

definition demo_files :: "string \<Rightarrow> string option" where
  "demo_files =
     [''/desi/datachallenge/reference_runs/19.12/spectro/redux/mini/zcatalog-mini.fits'' \<mapsto> ''catalog'',
      ''/desi/datachallenge/reference_runs/19.12/targets/targets-bright.fits'' \<mapsto> ''catalog'',
      ''/desi/datachallenge/reference_runs/19.12/targets/targets-dark.fits'' \<mapsto> ''catalog'',
      ''/desi/datachallenge/reference_runs/19.12/targets/truth-bright.fits'' \<mapsto> ''truth'',
      ''/desi/datachallenge/reference_runs/19.12/targets/truth-dark.fits'' \<mapsto> ''truth'']"

definition demo_world :: world where
  "demo_world =
     \<lparr>files = demo_files,
      dirs = {''/desi/datachallenge/reference_runs/19.12''},
      sent = [],
      environ = [''DESI_ROOT'' \<mapsto> ''/desi''],
      cwd = ''/home/user'',
      vars = Map.empty\<rparr>"

section \<open>Properties\<close>

lemma traverse_Inr:
  "\<forall>x\<in>set xs. \<exists>y. f x = Inr y \<Longrightarrow> traverse f xs = Inr (map (\<lambda>x. projr (f x)) xs)"
  by (induction xs) auto

lemma tiles_index_ok:
  assumes "\<forall>t\<in>set ids. index tiles t \<noteq> None"
  shows "tiles_index tiles ids = Inr (map (\<lambda>t. the (index tiles t)) ids)"
proof -
  let ?f = "\<lambda>t. case index tiles t of None \<Rightarrow> Inl ValueError | Some i \<Rightarrow> Inr i"
  have "\<forall>t\<in>set ids. \<exists>y. ?f t = Inr y"
    using assms by (auto split: option.splits)
  then have "traverse ?f ids = Inr (map (\<lambda>t. projr (?f t)) ids)"
    by (rule traverse_Inr)
  moreover have "map (\<lambda>t. projr (?f t)) ids = map (\<lambda>t. the (index tiles t)) ids"
    using assms by (auto split: option.splits)
  ultimately show ?thesis by (simp add: tiles_index_def)
qed

lemma take_at_ok:
  assumes "\<forall>i\<in>set idx. i < length a"
  shows "take_at a idx = Inr (map (\<lambda>i. a ! i) idx)"
proof -
  let ?f = "\<lambda>i. if i < length a then Inr (a ! i) else Inl IndexError"
  have "\<forall>i\<in>set idx. \<exists>y. ?f i = Inr y" using assms by auto
  then have "traverse ?f idx = Inr (map (\<lambda>i. projr (?f i)) idx)"
    by (rule traverse_Inr)
  moreover have "map (\<lambda>i. projr (?f i)) idx = map (\<lambda>i. a ! i) idx"
    using assms by auto
  ultimately show ?thesis by (simp add: take_at_def)
qed

lemma count_select:
  "count_true (map P (select (map f xs) (map Q xs))) = length (filter (\<lambda>x. Q x \<and> P (f x)) xs)"
  by (induction xs) (auto simp: count_true_def select_def)

lemma mask_and_map: "mask_and (map P xs) (map Q xs) = map (\<lambda>x. P x \<and> Q x) xs"
  by (induction xs) (auto simp: mask_and_def)

subsection \<open>Completed tiles per pass in a time range\<close>

text \<open>
  Claim C1. When every exposure's tile identifier is known to the catalog (the lookup
  \<open>tiles.index\<close> succeeds and returns a position inside \<open>passnum\<close>),
  \<open>completed_in_timerange\<close> returns one count per pass, in the order of \<open>tiles.passes\<close>; the
  count of a pass is the number of exposures with \<open>startmjd < mjd < stopmjd\<close> (both
  strict, so an exposure at either end is excluded), whose tile has that pass, and
  whose \<open>snr2frac\<close> is at least 1.
\<close>

theorem completed_in_timerange_counts:
  assumes "\<forall>e\<in>set exposures. tile_pass tiles (tileid e) \<noteq> None"
  shows "completed_in_timerange tiles exposures startmjd stopmjd =
           Inr (map (\<lambda>pass0. length (filter (\<lambda>e. startmjd < mjd e \<and> mjd e < stopmjd \<and>
                        tile_pass tiles (tileid e) = Some pass0 \<and> 1 \<le> snr2frac e) exposures))
                  (passes tiles))"
proof -
  have each: "\<exists>i. index tiles (tileid e) = Some i \<and> i < length (passnum tiles)"
    if "e \<in> set exposures" for e
  proof -
    from assms that have "tile_pass tiles (tileid e) \<noteq> None" by blast
    then show ?thesis
      by (cases "index tiles (tileid e)") (auto simp: tile_pass_def split: if_splits)
  qed
  have known: "\<forall>t\<in>set (map tileid exposures). index tiles t \<noteq> None"
    using each by fastforce
  have inrange: "\<forall>i\<in>set (map (\<lambda>t. the (index tiles t)) (map tileid exposures)). i < length (passnum tiles)"
    using each by fastforce
  have pass: "tile_pass tiles (tileid e) = Some (passnum tiles ! the (index tiles (tileid e)))"
    if "e \<in> set exposures" for e
    using each [OF that] by (auto simp: tile_pass_def)
  let ?tp = "map (\<lambda>e. passnum tiles ! the (index tiles (tileid e))) exposures"
  have tp: "take_at (passnum tiles) (map (\<lambda>t. the (index tiles t)) (map tileid exposures)) = Inr ?tp"
    using take_at_ok [OF inrange] by (simp add: comp_def)
  have cnt: "count_true (map (\<lambda>s. s \<ge> 1) (select (map snr2frac exposures)
        (mask_and (mask_and (map (\<lambda>x. x > startmjd) (map mjd exposures))
                       (map (\<lambda>x. x < stopmjd) (map mjd exposures)))
           (map (\<lambda>p. p = pass0) ?tp)))) =
      length (filter (\<lambda>e. startmjd < mjd e \<and> mjd e < stopmjd \<and>
                        tile_pass tiles (tileid e) = Some pass0 \<and> 1 \<le> snr2frac e) exposures)" for pass0
  proof -
    have "mask_and (mask_and (map (\<lambda>x. x > startmjd) (map mjd exposures))
                       (map (\<lambda>x. x < stopmjd) (map mjd exposures)))
           (map (\<lambda>p. p = pass0) ?tp) =
          map (\<lambda>e. (mjd e > startmjd \<and> mjd e < stopmjd) \<and>
                 passnum tiles ! the (index tiles (tileid e)) = pass0) exposures"
      by (simp add: mask_and_map comp_def)
    then have "count_true (map (\<lambda>s. s \<ge> 1) (select (map snr2frac exposures)
        (mask_and (mask_and (map (\<lambda>x. x > startmjd) (map mjd exposures))
                       (map (\<lambda>x. x < stopmjd) (map mjd exposures)))
           (map (\<lambda>p. p = pass0) ?tp)))) =
         length (filter (\<lambda>e. ((mjd e > startmjd \<and> mjd e < stopmjd) \<and>
                 passnum tiles ! the (index tiles (tileid e)) = pass0) \<and> 1 \<le> snr2frac e) exposures)"
      by (simp only: count_select)
    also have "\<dots> = length (filter (\<lambda>e. startmjd < mjd e \<and> mjd e < stopmjd \<and>
                        tile_pass tiles (tileid e) = Some pass0 \<and> 1 \<le> snr2frac e) exposures)"
      by (rule arg_cong [where f = length], rule filter_cong) (auto simp: pass)
    finally show ?thesis .
  qed
  show ?thesis
    by (simp only: completed_in_timerange_def Let_def tiles_index_ok [OF known] tp cnt sum.case)
qed

theorem completed_in_timerange_counts_witness:
  "completed_in_timerange two_tiles exposures_known 58821 (58821 + 365) = Inr [1, 1]"
proof -
  have h: "\<forall>e\<in>set exposures_known. tile_pass two_tiles (tileid e) \<noteq> None"
    by (simp add: exposures_known_def two_tiles_def tile_pass_def)
  show ?thesis
    using completed_in_timerange_counts [OF h, of 58821 "58821 + 365"]
    by (simp add: exposures_known_def two_tiles_def tile_pass_def)
qed

text \<open>
  An exposure of a tile the catalog does not know: the lookup raises and the function
  returns no counts.
\<close>

theorem completed_in_timerange_unknown_tile:
  "completed_in_timerange two_tiles exposures_unknown 58821 (58821 + 365) = Inl ValueError"
  by (simp add: completed_in_timerange_def two_tiles_def exposures_unknown_def tiles_index_def)

text \<open>
  The same in general: a table that holds an exposure of a tile the catalog does not
  know makes the call raise ValueError, whatever the interval.
\<close>

lemma traverse_raises:
  assumes "x \<in> set xs" and "f x = Inl e" and "\<And>y e'. f y = Inl e' \<Longrightarrow> e' = e"
  shows "traverse f xs = Inl e"
  using assms(1)
proof (induction xs)
  case Nil
  then show ?case by simp
next
  case (Cons y ys)
  show ?case
  proof (cases "f y")
    case (Inl e')
    with assms(3) show ?thesis by simp
  next
    case (Inr v)
    with Cons.prems assms(2) have "x \<in> set ys" by auto
    with Cons.IH Inr show ?thesis by simp
  qed
qed

lemma completed_in_timerange_raises:
  assumes "x \<in> set exposures" and "index tiles (tileid x) = None"
  shows "completed_in_timerange tiles exposures startmjd stopmjd = Inl ValueError"
proof -
  have "tiles_index tiles (map tileid exposures) = Inl ValueError"
    unfolding tiles_index_def
  proof (rule traverse_raises [where x = "tileid x"])
    show "tileid x \<in> set (map tileid exposures)" using assms(1) by simp
    show "(case index tiles (tileid x) of None \<Rightarrow> Inl ValueError | Some i \<Rightarrow> Inr i) = Inl ValueError"
      using assms(2) by simp
    show "e' = ValueError"
      if "(case index tiles y of None \<Rightarrow> Inl ValueError | Some i \<Rightarrow> Inr i) = Inl e'" for y e'
      using that by (cases "index tiles y") simp_all
  qed
  then show ?thesis
    by (simp add: completed_in_timerange_def)
qed

subsection \<open>The survey summary line\<close>

lemma fold_min_Min: "fold min rest (x::'a::linorder) = Min (set (x # rest))"
  by (rule Min.set_eq_fold [symmetric])

lemma fold_max_Max: "fold max rest (x::'a::linorder) = Max (set (x # rest))"
  by (rule Max.set_eq_fold [symmetric])

lemma count_true_map: "count_true (map P xs) = length (filter P xs)"
  by (induction xs) (auto simp: count_true_def)

text \<open>
  Claim C5. For a tile-summary table and a non-empty exposures table, the survey summary
  line reports, in this order, the date of the minimum exposure MJD, the date of the
  maximum exposure MJD, the number of tile rows whose \<open>snr2frac\<close> is at least 1, and the
  length of the exposures table.
\<close>

theorem survey_summary_reports:
  assumes "exposures \<noteq> []"
  shows "survey_summary to_date exposures tilestats =
           Inr (to_date (Min (mjd ` set exposures)), to_date (Max (mjd ` set exposures)),
                length (filter (\<lambda>t. 1 \<le> tile_snr2frac t) tilestats), length exposures)"
proof -
  obtain e rest where ex: "exposures = e # rest"
    using assms by (cases exposures) auto
  have lo: "numpy_min (map mjd exposures) = Inr (Min (mjd ` set exposures))"
    by (simp add: numpy_min_def ex fold_min_Min)
  have hi: "numpy_max (map mjd exposures) = Inr (Max (mjd ` set exposures))"
    by (simp add: numpy_max_def ex fold_max_Max)
  have n: "count_true (map (\<lambda>s. s \<ge> 1) (map tile_snr2frac tilestats)) =
             length (filter (\<lambda>t. 1 \<le> tile_snr2frac t) tilestats)"
    by (simp add: count_true_map comp_def)
  show ?thesis
    by (simp only: survey_summary_def lo hi n sum.case)
qed


theorem survey_summary_reports_witness:
  "exposures_known \<noteq> [] \<and>
   survey_summary day_of exposures_known two_tilestats = Inr (58821, 59186, 1, 5)"
proof -
  have h: "exposures_known \<noteq> []" by (simp add: exposures_known_def)
  have "Min (mjd ` set exposures_known) = 58821" "Max (mjd ` set exposures_known) = 59186"
    by (simp_all add: exposures_known_def)
  then show ?thesis
    using h survey_summary_reports [OF h, of day_of two_tilestats]
    by (simp add: two_tilestats_def day_of_def exposures_known_def)
qed

text \<open>
  With no exposure there is no minimum: \<open>numpy.min\<close> raises and no line is printed.
\<close>

theorem survey_summary_no_exposures:
  "survey_summary day_of [] two_tilestats = Inl ValueError"
  by (simp add: survey_summary_def numpy_min_def)

text \<open>The same for every tile-summary table and every date conversion.\<close>

lemma survey_summary_raises: "survey_summary to_date [] tilestats = Inl ValueError"
  by (simp add: survey_summary_def numpy_min_def)

subsection \<open>Row-matched tile catalog and tile statistics\<close>

text \<open>
  Claim C6. The two sky maps of the notebook combine the tile catalog and the \<open>tiledata\<close>
  rows by row position only: the point drawn for position \<open>i\<close> carries the catalog's
  coordinates and pass at \<open>i\<close> and the value of the column \<open>avail\<close>, or \<open>snr2frac\<close>, of the
  \<open>tiledata\<close> row at \<open>i\<close>. Let row \<open>i\<close> of the HDU hold the statistics \<open>own t\<close> of the tile
  \<open>t = hdu_tiles ! i\<close>. When the HDU lists the tiles in the catalog's order, every tile is
  drawn with its own statistics; when the two have the same length and the order
  differs, some tile is drawn with the statistics of another tile.
\<close>

theorem sky_map_pairs_by_position:
  assumes len: "length (tileID tiles) = n" "length (tileRA tiles) = n"
      "length (tileDEC tiles) = n" "length (passnum tiles) = n" "length hdu_tiles = n"
    and rows: "tilestats = map own hdu_tiles"
  shows "(\<forall>i<n. avail_sky_map tiles tilestats i =
             Some (tileRA tiles ! i, tileDEC tiles ! i, passnum tiles ! i, tile_avail (tilestats ! i)) \<and>
           snr2frac_sky_map tiles tilestats i =
             Some (tileRA tiles ! i, tileDEC tiles ! i, passnum tiles ! i, tile_snr2frac (tilestats ! i))) \<and>
         (hdu_tiles = tileID tiles \<longrightarrow>
            (\<forall>i<n. avail_sky_map tiles tilestats i =
                 Some (tileRA tiles ! i, tileDEC tiles ! i, passnum tiles ! i,
                       tile_avail (own (tileID tiles ! i))) \<and>
               snr2frac_sky_map tiles tilestats i =
                 Some (tileRA tiles ! i, tileDEC tiles ! i, passnum tiles ! i,
                       tile_snr2frac (own (tileID tiles ! i))))) \<and>
         (hdu_tiles \<noteq> tileID tiles \<longrightarrow>
            (\<exists>i<n. hdu_tiles ! i \<noteq> tileID tiles ! i \<and>
               avail_sky_map tiles tilestats i =
                 Some (tileRA tiles ! i, tileDEC tiles ! i, passnum tiles ! i,
                       tile_avail (own (hdu_tiles ! i))) \<and>
               snr2frac_sky_map tiles tilestats i =
                 Some (tileRA tiles ! i, tileDEC tiles ! i, passnum tiles ! i,
                       tile_snr2frac (own (hdu_tiles ! i)))))"
proof -
  have avail: "avail_sky_map tiles tilestats i =
      Some (tileRA tiles ! i, tileDEC tiles ! i, passnum tiles ! i, tile_avail (own (hdu_tiles ! i)))"
    if "i < n" for i
    using that len rows by (simp add: avail_sky_map_def sky_pass_point_def)
  have snr: "snr2frac_sky_map tiles tilestats i =
      Some (tileRA tiles ! i, tileDEC tiles ! i, passnum tiles ! i, tile_snr2frac (own (hdu_tiles ! i)))"
    if "i < n" for i
    using that len rows by (simp add: snr2frac_sky_map_def sky_pass_point_def)
  have row: "tilestats ! i = own (hdu_tiles ! i)" if "i < n" for i
    using that len rows by simp
  have differ: "\<exists>i<n. hdu_tiles ! i \<noteq> tileID tiles ! i" if "hdu_tiles \<noteq> tileID tiles"
    using that len by (metis nth_equalityI)
  have by_position: "\<forall>i<n. avail_sky_map tiles tilestats i =
        Some (tileRA tiles ! i, tileDEC tiles ! i, passnum tiles ! i, tile_avail (tilestats ! i)) \<and>
      snr2frac_sky_map tiles tilestats i =
        Some (tileRA tiles ! i, tileDEC tiles ! i, passnum tiles ! i, tile_snr2frac (tilestats ! i))"
    using avail snr row by simp
  have same: "\<forall>i<n. avail_sky_map tiles tilestats i =
        Some (tileRA tiles ! i, tileDEC tiles ! i, passnum tiles ! i,
              tile_avail (own (tileID tiles ! i))) \<and>
      snr2frac_sky_map tiles tilestats i =
        Some (tileRA tiles ! i, tileDEC tiles ! i, passnum tiles ! i,
              tile_snr2frac (own (tileID tiles ! i)))"
    if "hdu_tiles = tileID tiles"
    using avail snr that by simp
  have other: "\<exists>i<n. hdu_tiles ! i \<noteq> tileID tiles ! i \<and>
      avail_sky_map tiles tilestats i =
        Some (tileRA tiles ! i, tileDEC tiles ! i, passnum tiles ! i,
              tile_avail (own (hdu_tiles ! i))) \<and>
      snr2frac_sky_map tiles tilestats i =
        Some (tileRA tiles ! i, tileDEC tiles ! i, passnum tiles ! i,
              tile_snr2frac (own (hdu_tiles ! i)))"
    if "hdu_tiles \<noteq> tileID tiles"
    using differ [OF that] avail snr by blast
  from by_position same other show ?thesis by blast
qed

theorem sky_map_pairs_by_position_witness:
  "avail_sky_map two_tiles (map stats_of_tile [1, 2]) 0 = Some (10, -5, 0, 0) \<and>
   avail_sky_map two_tiles (map stats_of_tile [1, 2]) 1 = Some (20, 5, 1, 30) \<and>
   snr2frac_sky_map two_tiles (map stats_of_tile [1, 2]) 1 = Some (20, 5, 1, 4/5) \<and>
   (\<exists>i<2. [2, 1] ! i \<noteq> tileID two_tiles ! i \<and>
      avail_sky_map two_tiles (map stats_of_tile [2, 1]) i =
        Some (tileRA two_tiles ! i, tileDEC two_tiles ! i, passnum two_tiles ! i,
              tile_avail (stats_of_tile ([2, 1] ! i))))"
proof -
  have len: "length (tileID two_tiles) = 2" "length (tileRA two_tiles) = 2"
    "length (tileDEC two_tiles) = 2" "length (passnum two_tiles) = 2"
    by (simp_all add: two_tiles_def)
  have l12: "length [1, 2 :: int] = 2" and l21: "length [2, 1 :: int] = 2"
    by simp_all
  note same = sky_map_pairs_by_position [OF len l12 refl, where own = stats_of_tile]
  note swapped = sky_map_pairs_by_position [OF len l21 refl, where own = stats_of_tile]
  have ids: "[1, 2] = tileID two_tiles" "[2, 1] \<noteq> tileID two_tiles"
    by (simp_all add: two_tiles_def)
  from same ids(1) have own:
    "\<forall>i<2. avail_sky_map two_tiles (map stats_of_tile [1, 2]) i =
        Some (tileRA two_tiles ! i, tileDEC two_tiles ! i, passnum two_tiles ! i,
              tile_avail (stats_of_tile (tileID two_tiles ! i))) \<and>
      snr2frac_sky_map two_tiles (map stats_of_tile [1, 2]) i =
        Some (tileRA two_tiles ! i, tileDEC two_tiles ! i, passnum two_tiles ! i,
              tile_snr2frac (stats_of_tile (tileID two_tiles ! i)))"
    by blast
  have p0: "avail_sky_map two_tiles (map stats_of_tile [1, 2]) 0 = Some (10, -5, 0, 0)"
    using own [rule_format, of 0]
    by (simp add: two_tiles_def stats_of_tile_def two_tilestats_def)
  have p1: "avail_sky_map two_tiles (map stats_of_tile [1, 2]) 1 = Some (20, 5, 1, 30) \<and>
      snr2frac_sky_map two_tiles (map stats_of_tile [1, 2]) 1 = Some (20, 5, 1, 4/5)"
    using own [rule_format, of 1]
    by (simp add: two_tiles_def stats_of_tile_def two_tilestats_def)
  from swapped ids(2) have "\<exists>i<2. [2, 1] ! i \<noteq> tileID two_tiles ! i \<and>
      avail_sky_map two_tiles (map stats_of_tile [2, 1]) i =
        Some (tileRA two_tiles ! i, tileDEC two_tiles ! i, passnum two_tiles ! i,
              tile_avail (stats_of_tile ([2, 1] ! i)))"
    by blast
  then show ?thesis
    using p0 p1 by simp
qed

subsection \<open>Sequences of statements\<close>

lemma run_append:
  "run (xs @ ys) w = (case run xs w of (None, w') \<Rightarrow> run ys w' | (Some e, w') \<Rightarrow> (Some e, w'))"
  by (induction xs arbitrary: w) (auto split: prod.splits option.splits)


lemma run_halts_at:
  assumes "k < length ss" and "run (take k ss) w0 = (None, w)" and "(ss ! k) w = (Some e, w')"
  shows "run ss w0 = (Some e, w')"
proof -
  have "ss = take k ss @ (ss ! k) # drop (Suc k) ss"
    using assms(1) by (simp add: id_take_nth_drop)
  then have "run ss w0 = run (take k ss @ (ss ! k) # drop (Suc k) ss) w0" by simp
  also have "\<dots> = (Some e, w')"
    using assms(2,3) by (simp add: run_append)
  finally show ?thesis .
qed

subsection \<open>Names a binding leaves alone\<close>




subsection \<open>Names a statement keeps\<close>













subsection \<open>Stripping the template types\<close>

lemma dropWhile_fixed: "xs = [] \<or> \<not> P (hd xs) \<Longrightarrow> dropWhile P xs = xs"
  by (cases xs) auto

lemma dropWhile_head: "dropWhile P xs = [] \<or> \<not> P (hd (dropWhile P xs))"
  using hd_dropWhile by blast

lemma drop_trailing_head:
  assumes "xs = [] \<or> \<not> P (hd xs)"
  shows "rev (dropWhile P (rev xs)) = [] \<or> \<not> P (hd (rev (dropWhile P (rev xs))))"
proof (cases "dropWhile P (rev xs) = []")
  case True
  then show ?thesis by simp
next
  case False
  then have ne: "xs \<noteq> []" by auto
  with assms have h: "\<not> P (hd xs)" by simp
  have "last (rev xs) = hd xs" using ne by (simp add: last_rev)
  moreover have "hd xs \<in> set (rev xs)" using ne by simp
  ultimately have "last (dropWhile P (rev xs)) = hd xs"
    using h by (metis dropWhile_last)
  then have "hd (rev (dropWhile P (rev xs))) = hd xs"
    using False by (simp add: hd_rev)
  with h show ?thesis by simp
qed

lemma strip_strip: "strip (strip s) = strip s"
proof -
  let ?a = "dropWhile is_space s"
  let ?b = "rev (dropWhile is_space (rev ?a))"
  have b: "?b = [] \<or> \<not> is_space (hd ?b)"
    by (rule drop_trailing_head) (rule dropWhile_head)
  have rb: "rev ?b = [] \<or> \<not> is_space (hd (rev ?b))"
    using dropWhile_head [of is_space "rev ?a"] by simp
  have "strip ?b = rev (dropWhile is_space (rev (dropWhile is_space ?b)))"
    by (simp add: strip_def)
  also have "dropWhile is_space ?b = ?b"
    using b by (rule dropWhile_fixed)
  also have "dropWhile is_space (rev ?b) = rev ?b"
    using rb by (rule dropWhile_fixed)
  finally have "strip ?b = ?b" by simp
  then show ?thesis by (simp add: strip_def)
qed

lemma strip_column_of_cases:
  assumes "strip_column_of x w = (r, w')"
  shows "(r \<noteq> None \<and> w' = w) \<or>
         (r = None \<and> (\<exists>t xs. vars w x = Some (Tab t) \<and> t ''TEMPLATETYPE'' = Some (StrCol xs) \<and>
            w' = w\<lparr>vars := (vars w)(x \<mapsto> Tab (t(''TEMPLATETYPE'' \<mapsto> StrCol (map strip xs))))\<rparr>))"
  using assms
  by (auto simp: strip_column_of_def name_value_def strip_templatetype_def char_strip_def
      split: option.splits pyval.splits sum.splits column.splits)

lemma strip_comp_strip: "strip \<circ> strip = strip"
  by (rule ext) (simp add: strip_strip)

lemma map_strip_strip: "map strip (map strip xs) = map strip xs"
  by (simp add: strip_comp_strip)

lemma strip_column_of_stripped:
  assumes "strip_column_of x w = (None, w')"
  shows "\<exists>t xs. vars w' x = Some (Tab t) \<and> t ''TEMPLATETYPE'' = Some (StrCol (map strip xs))"
  using strip_column_of_cases [OF assms] by auto

lemma strip_column_of_fixed:
  assumes "vars w x = Some (Tab t)" and "t ''TEMPLATETYPE'' = Some (StrCol (map strip xs))"
  shows "strip_column_of x w = (None, w)"
proof -
  have "t(''TEMPLATETYPE'' \<mapsto> StrCol (map strip (map strip xs))) = t"
    using assms(2) by (simp add: strip_comp_strip fun_upd_idem)
  moreover have "(vars w)(x \<mapsto> Tab t) = vars w"
    using assms(1) by (simp add: fun_upd_idem)
  ultimately show ?thesis
    using assms
    by (simp add: strip_column_of_def name_value_def strip_templatetype_def char_strip_def
        strip_comp_strip)
qed

lemma strip_column_of_keeps:
  assumes "strip_column_of y w = (r, w')" and "x \<noteq> y"
  shows "vars w' x = vars w x"
  using strip_column_of_cases [OF assms(1)] assms(2) by auto

lemma strip_column_of_outside:
  assumes "strip_column_of y w = (r, w')"
  shows "files w' = files w \<and> dirs w' = dirs w \<and> sent w' = sent w \<and>
         environ w' = environ w \<and> cwd w' = cwd w"
  using strip_column_of_cases [OF assms] by auto

text \<open>
  Claim C10. Let the cell that strips \<open>TEMPLATETYPE\<close> run in any world and end, raising or
  not, in the world \<open>w'\<close>. The file system, the network traffic, the environment and the
  working directory are unchanged; every name other than \<open>truth_bright\<close> and \<open>truth_dark\<close>
  holds its value, so \<open>zcat\<close>, \<open>targets_bright\<close> and \<open>targets_dark\<close> do; every column other
  than \<open>TEMPLATETYPE\<close> of every table is unchanged; a name whose value changed holds the
  same table with the strings of \<open>TEMPLATETYPE\<close> stripped; and running the cell again
  in \<open>w'\<close> ends the same way in the same world.
\<close>

theorem strip_cell_frame_idempotent:
  assumes "run (strip_cell X) w = (r, w')"
  shows "files w' = files w \<and> dirs w' = dirs w \<and> sent w' = sent w \<and>
         environ w' = environ w \<and> cwd w' = cwd w \<and>
         (\<forall>x. x \<noteq> ''truth_bright'' \<and> x \<noteq> ''truth_dark'' \<longrightarrow> vars w' x = vars w x) \<and>
         (\<forall>x c. c \<noteq> ''TEMPLATETYPE'' \<longrightarrow> column_of w' x c = column_of w x c) \<and>
         (\<forall>x. vars w' x = vars w x \<or>
              (\<exists>t xs. vars w x = Some (Tab t) \<and> t ''TEMPLATETYPE'' = Some (StrCol xs) \<and>
                 vars w' x = Some (Tab (t(''TEMPLATETYPE'' \<mapsto> StrCol (map strip xs)))))) \<and>
         run (strip_cell X) w' = (r, w')"
proof -
  obtain r1 w1 where s1: "strip_column_of ''truth_bright'' w = (r1, w1)"
    by (cases "strip_column_of ''truth_bright'' w")
  obtain r2 w2 where s2: "strip_column_of ''truth_dark'' w1 = (r2, w2)"
    by (cases "strip_column_of ''truth_dark'' w1")
  have final: "w' = (if r1 = None then w2 else w1)"
    using assms s1 s2 strip_column_of_cases [OF s2]
    by (auto simp: strip_cell_def display_def split: option.splits)
  have step: "vars v' x = vars v x \<or>
      (\<exists>t xs. vars v x = Some (Tab t) \<and> t ''TEMPLATETYPE'' = Some (StrCol xs) \<and>
         vars v' x = Some (Tab (t(''TEMPLATETYPE'' \<mapsto> StrCol (map strip xs)))))"
    if "strip_column_of y v = (q, v')" for y v q v' x
    using strip_column_of_cases [OF that] by (cases "x = y") auto
  have outside: "files w' = files w \<and> dirs w' = dirs w \<and> sent w' = sent w \<and>
         environ w' = environ w \<and> cwd w' = cwd w"
    using final strip_column_of_outside [OF s1] strip_column_of_outside [OF s2] by simp
  have others: "vars w' x = vars w x" if "x \<noteq> ''truth_bright''" "x \<noteq> ''truth_dark''" for x
    using final strip_column_of_keeps [OF s1 that(1)] strip_column_of_keeps [OF s2 that(2)] by simp
  have each: "vars w' x = vars w x \<or>
      (\<exists>t xs. vars w x = Some (Tab t) \<and> t ''TEMPLATETYPE'' = Some (StrCol xs) \<and>
         vars w' x = Some (Tab (t(''TEMPLATETYPE'' \<mapsto> StrCol (map strip xs)))))" for x
  proof (cases "x = ''truth_dark''")
    case True
    then have "vars w1 x = vars w x"
      using strip_column_of_keeps [OF s1, of x] by simp
    with step [OF s2, of x] final show ?thesis by auto
  next
    case False
    then have "vars w2 x = vars w1 x"
      using strip_column_of_keeps [OF s2, of x] by simp
    with step [OF s1, of x] final show ?thesis by auto
  qed
  have columns: "column_of w' x c = column_of w x c" if "c \<noteq> ''TEMPLATETYPE''" for x c
    using each [of x] that by (auto simp: column_of_def)
  have again: "run (strip_cell X) w' = (r, w')"
  proof (cases r1)
    case (Some e)
    with assms s1 final show ?thesis
      using strip_column_of_cases [OF s1] by (auto simp: strip_cell_def)
  next
    case None
    with final have w': "w' = w2" by simp
    from None s1 obtain t xs where b: "vars w1 ''truth_bright'' = Some (Tab t)"
        "t ''TEMPLATETYPE'' = Some (StrCol (map strip xs))"
      using strip_column_of_stripped by blast
    have "vars w2 ''truth_bright'' = vars w1 ''truth_bright''"
      using strip_column_of_keeps [OF s2, of "''truth_bright''"] by simp
    with b have b2: "strip_column_of ''truth_bright'' w2 = (None, w2)"
      by (simp add: strip_column_of_fixed)
    show ?thesis
    proof (cases r2)
      case (Some e)
      then have "w2 = w1" using strip_column_of_cases [OF s2] by auto
      with assms s1 s2 None Some b2 w' show ?thesis
        by (auto simp: strip_cell_def)
    next
      case r2: None
      from r2 s2 obtain t xs where d: "vars w2 ''truth_dark'' = Some (Tab t)"
          "t ''TEMPLATETYPE'' = Some (StrCol (map strip xs))"
        using strip_column_of_stripped by blast
      then have d2: "strip_column_of ''truth_dark'' w2 = (None, w2)"
        by (simp add: strip_column_of_fixed)
      from assms s1 s2 None r2 have "r = render X 856 w2"
        by (cases "render X 856 w2") (simp_all add: strip_cell_def display_def)
      with b2 d2 w' show ?thesis
        by (cases "render X 856 w2") (simp_all add: strip_cell_def display_def)
    qed
  qed
  from outside others each columns again show ?thesis
    by (intro conjI allI impI) (simp_all del: fun_upd_apply)
qed

subsection \<open>Reads and loaded tables\<close>

lemmas demo_defs =
  demo_ext_def demo_world_def demo_render_def demo_call_def demo_loop_def demo_parse_def
  demo_files_def demo_truth_def demo_catalog_def

lemmas stmt_defs =
  display_def assign_def bind_def chdir_def read_into_def read_file_def set_environ_def
  rebind_def strip_column_of_def strip_templatetype_def char_strip_def
  reference_run_dir_def redux_dir_def truth_file_def getenv_def text_of_def name_value_def
  path_join_def path_join2_def is_abs_def

lemma demo_before_spectra:
  "\<exists>W. run (take 25 (notebook_truth demo_ext)) demo_world = (None, W) \<and>
       cwd W = ''/desi/datachallenge/reference_runs/19.12'' \<and>
       vars W ''specfile'' = Some (Txt ''spectro/redux/mini/spectra-64-5299.fits'') \<and>
       vars W ''spectra'' = None \<and>
       files W = demo_files"
  by (simp add: notebook_truth_def truth_load_def strip_cell_def truth_compare_def
      stmt_defs demo_defs)

lemma concat_nth3:
  assumes "\<And>x. length (f x) = 3" and "d < length xs" and "j < 3"
  shows "concat (map f xs) ! (3 * d + j) = f (xs ! d) ! j"
  using assms(2)
proof (induction xs arbitrary: d)
  case Nil
  then show ?case by simp
next
  case (Cons x xs)
  show ?case
  proof (cases d)
    case 0
    then show ?thesis using assms(1,3) by (simp add: nth_append)
  next
    case (Suc d')
    with Cons.prems have "d' < length xs" by simp
    from Cons.IH [OF this] Suc show ?thesis
      using assms(1) by (simp add: nth_append)
  qed
qed

lemma length_concat3:
  assumes "\<And>x. length (f x) = 3"
  shows "length (concat (map f xs)) = 3 * length xs"
  by (induction xs) (simp_all add: assms)

lemma length_realizations: "length (concat (map (realization X) [0..<100])) = 300"
  by (simp add: length_concat3 realization_def)

lemma length_notebook_survey: "length (notebook_survey X) = 332"
  by (simp add: notebook_survey_def survey_load_def survey_tiles_def survey_weather_def
      length_realizations)

lemma survey_drop_31:
  "drop 31 (notebook_survey X) = concat (map (realization X) [0..<100]) @ [display (render X 676)]"
  by (simp add: notebook_survey_def survey_load_def survey_tiles_def survey_weather_def)

lemma survey_nth_realization:
  assumes "d < 100" and "j < 3"
  shows "notebook_survey X ! (31 + 3 * d + j) = realization X d ! j"
proof -
  have "notebook_survey X ! (31 + (3 * d + j)) = drop 31 (notebook_survey X) ! (3 * d + j)"
    by (simp add: length_notebook_survey)
  also have "\<dots> = concat (map (realization X) [0..<100]) ! (3 * d + j)"
    using assms by (simp add: survey_drop_31 nth_append length_realizations)
  also have "\<dots> = realization X ([0..<100] ! d) ! j"
    using assms by (intro concat_nth3) (simp_all add: realization_def)
  finally show ?thesis using assms by (simp add: add.assoc)
qed

lemma survey_read_at:
  assumes "(k, tgt, rd, path) \<in> set survey_reads"
  shows "k < length (notebook_survey X) \<and> notebook_survey X ! k = read_into tgt (parse X rd) path"
proof -
  from assms consider
      "(k, tgt, rd, path) \<in> set (take 3 survey_reads)"
    | d where "d < 100" "k = 32 + 3 * d" "tgt = Var ''exposures0''" "rd = FitsGetdata None"
        "path = realization_file d"
    by (auto simp: survey_reads_def)
  then show ?thesis
  proof cases
    case 1
    then show ?thesis
      by (auto simp: survey_reads_def length_notebook_survey)
         (simp_all add: notebook_survey_def survey_load_def survey_tiles_def nth_append)
  next
    case 2
    have "notebook_survey X ! (31 + 3 * d + 1) = realization X d ! 1"
      using 2(1) by (intro survey_nth_realization) simp_all
    with 2 show ?thesis
      by (simp add: length_notebook_survey realization_def)
  qed
qed

lemma truth_read_at:
  assumes "(k, tgt, rd, path) \<in> set truth_reads"
  shows "k < length (notebook_truth X) \<and> notebook_truth X ! k = read_into tgt (parse X rd) path"
  using assms
  by (auto simp: truth_reads_def notebook_truth_def truth_load_def strip_cell_def
      truth_compare_def nth_append)

lemma redrock_read_at:
  assumes "(k, tgt, rd, path) \<in> set redrock_reads"
  shows "k < length (notebook_redrock X) \<and> notebook_redrock X ! k = read_into tgt (parse X rd) path"
  using assms by (auto simp: redrock_reads_def notebook_redrock_def)

lemma read_into_fails:
  assumes "k < length nb" and "nb ! k = read_into tgt rd path"
    and "run (take k nb) w0 = (None, w)" and "path w = Inr p"
    and "rd (files w (path_join2 (cwd w) p)) = Inl e"
  shows "run nb w0 = (Some e, w)"
proof -
  have "(nb ! k) w = (Some e, w)"
    using assms(2,4,5) by (simp add: read_into_def assign_def read_file_def)
  with assms(1,3) show ?thesis
    by (rule run_halts_at)
qed

text \<open>
  Claim C3. Let the statement at position \<open>k\<close> of one of the three notebooks be one of
  its file reads: a read of the first notebook (the two \<open>fits.getdata\<close>, the restore of
  the statistics, the read of each of the 100 realizations), of the second (the five
  \<open>Table.read\<close>, \<open>read_spectra\<close>, \<open>fits.open\<close>) or of the third (\<open>boss.read_spectra\<close>). The
  statement is the plain assignment of the reader's result to its target. When the
  statements before it have run without raising, leaving the world \<open>w\<close>, and the reader
  raises \<open>e\<close> on what the file system holds at the path (no file, or bytes it rejects),
  the run of the notebook ends with exactly that exception and in exactly the world
  \<open>w\<close>: nothing catches the failure, no value is bound in its place, and no later
  statement runs.
\<close>

theorem read_failure_propagates:
  assumes "nb = notebook_survey X \<and> (k, tgt, rd, path) \<in> set survey_reads \<or>
           nb = notebook_truth X \<and> (k, tgt, rd, path) \<in> set truth_reads \<or>
           nb = notebook_redrock X \<and> (k, tgt, rd, path) \<in> set redrock_reads"
  shows "k < length nb \<and> nb ! k = read_into tgt (parse X rd) path \<and>
         (\<forall>w0 w p e.
            run (take k nb) w0 = (None, w) \<and> path w = Inr p \<and>
            parse X rd (files w (path_join2 (cwd w) p)) = Inl e \<longrightarrow>
            run nb w0 = (Some e, w))"
proof -
  have at: "k < length nb \<and> nb ! k = read_into tgt (parse X rd) path"
    using assms survey_read_at [of k tgt rd path X] truth_read_at [of k tgt rd path X]
      redrock_read_at [of k tgt rd path X]
    by blast
  then have "run nb w0 = (Some e, w)"
    if "run (take k nb) w0 = (None, w)" "path w = Inr p"
      "parse X rd (files w (path_join2 (cwd w) p)) = Inl e" for w0 w p e
    using that read_into_fails [of k nb tgt "parse X rd" path w0 w p e] by blast
  with at show ?thesis by blast
qed

theorem read_failure_propagates_witness:
  "fst (run (notebook_truth demo_ext) demo_world) = Some FileNotFoundError \<and>
   vars (snd (run (notebook_truth demo_ext) demo_world)) ''spectra'' = None \<and>
   cwd (snd (run (notebook_truth demo_ext) demo_world)) = ''/desi/datachallenge/reference_runs/19.12'' \<and>
   snd (run (notebook_truth demo_ext) demo_world) =
     snd (run (take 25 (notebook_truth demo_ext)) demo_world)"
proof -
  obtain W where W: "run (take 25 (notebook_truth demo_ext)) demo_world = (None, W)"
      "cwd W = ''/desi/datachallenge/reference_runs/19.12''"
      "vars W ''specfile'' = Some (Txt ''spectro/redux/mini/spectra-64-5299.fits'')"
      "vars W ''spectra'' = None" "files W = demo_files"
    using demo_before_spectra by blast
  have rd: "notebook_truth demo_ext = notebook_survey demo_ext \<and>
        (25, Var ''spectra'', ReadSpectra, text_of ''specfile'') \<in> set survey_reads \<or>
      notebook_truth demo_ext = notebook_truth demo_ext \<and>
        (25, Var ''spectra'', ReadSpectra, text_of ''specfile'') \<in> set truth_reads \<or>
      notebook_truth demo_ext = notebook_redrock demo_ext \<and>
        (25, Var ''spectra'', ReadSpectra, text_of ''specfile'') \<in> set redrock_reads"
    by (simp add: truth_reads_def)
  note T = read_failure_propagates [OF rd]
  have p: "text_of ''specfile'' W = Inr ''spectro/redux/mini/spectra-64-5299.fits''"
    using W(3) by (simp add: text_of_def name_value_def)
  have absent: "parse demo_ext ReadSpectra
      (files W (path_join2 (cwd W) ''spectro/redux/mini/spectra-64-5299.fits'')) = Inl FileNotFoundError"
    using W(2,5) by (simp add: path_join2_def is_abs_def demo_files_def demo_ext_def demo_parse_def)
  from T W(1) p absent
  have "run (notebook_truth demo_ext) demo_world = (Some FileNotFoundError, W)"
    by blast
  with W show ?thesis by simp
qed













theorem strip_cell_frame_idempotent_witness:
  "fst (run (strip_cell demo_ext) (snd (run (truth_load demo_ext) demo_world))) = None \<and>
   column_of (snd (run (strip_cell demo_ext) (snd (run (truth_load demo_ext) demo_world))))
     ''truth_dark'' ''TEMPLATETYPE'' = Some (StrCol [''ELG'', ''QSO'']) \<and>
   column_of (snd (run (strip_cell demo_ext) (snd (run (truth_load demo_ext) demo_world))))
     ''truth_dark'' ''TRUEZ'' = Some (FloatCol [1/2, 3/2]) \<and>
   vars (snd (run (strip_cell demo_ext) (snd (run (truth_load demo_ext) demo_world)))) ''zcat'' =
     vars (snd (run (truth_load demo_ext) demo_world)) ''zcat'' \<and>
   run (strip_cell demo_ext) (snd (run (strip_cell demo_ext) (snd (run (truth_load demo_ext) demo_world)))) =
     run (strip_cell demo_ext) (snd (run (truth_load demo_ext) demo_world))"
proof -
  let ?W = "snd (run (truth_load demo_ext) demo_world)"
  let ?r = "fst (run (strip_cell demo_ext) ?W)"
  let ?W' = "snd (run (strip_cell demo_ext) ?W)"
  have h: "run (strip_cell demo_ext) ?W = (?r, ?W')" by simp
  note T = strip_cell_frame_idempotent [OF h]
  have r: "?r = None"
    by (simp add: truth_load_def strip_cell_def stmt_defs demo_defs)
  have c: "column_of ?W' ''truth_dark'' ''TEMPLATETYPE'' = Some (StrCol [''ELG'', ''QSO''])"
    by (simp add: truth_load_def strip_cell_def stmt_defs demo_defs column_of_def strip_def is_space_def)
  have "column_of ?W ''truth_dark'' ''TRUEZ'' = Some (FloatCol [1/2, 3/2])"
    by (simp add: truth_load_def stmt_defs demo_defs column_of_def)
  with T have z: "column_of ?W' ''truth_dark'' ''TRUEZ'' = Some (FloatCol [1/2, 3/2])"
    by simp
  from T have v: "vars ?W' ''zcat'' = vars ?W ''zcat''" by simp
  from T h have "run (strip_cell demo_ext) ?W' = run (strip_cell demo_ext) ?W" by simp
  with r c z v show ?thesis by simp
qed

subsection \<open>The inner join on the target identifier\<close>

lemma set_table_join:
  "set (table_join ka kb left right) = {(a, b). a \<in> set left \<and> b \<in> set right \<and> ka a = kb b}"
  by (auto simp: table_join_def)

lemma count_list_pairs:
  "count_list (map (\<lambda>b. (a, b)) (filter P right)) (a', b') =
     (if a = a' \<and> P b' then count_list right b' else 0)"
  by (induction right) auto

lemma count_list_append: "count_list (xs @ ys) x = count_list xs x + count_list ys x"
  by (induction xs) auto

lemma count_table_join:
  "count_list (table_join ka kb left right) (a, b) =
     (if ka a = kb b then count_list left a * count_list right b else 0)"
  by (induction left) (auto simp: table_join_def count_list_pairs count_list_append)

text \<open>
  Claim C4. \<open>ztruth\<close> is the inner join of \<open>zcat\<close> and \<open>truth_dark\<close> on \<open>TARGETID\<close>: every row
  of \<open>ztruth\<close> combines a row of \<open>zcat\<close> and a row of \<open>truth_dark\<close> with equal \<open>TARGETID\<close>;
  every such pair of rows is a row of \<open>ztruth\<close>; and a pair of rows occurs in \<open>ztruth\<close> as
  often as its two rows occur in their tables when their \<open>TARGETID\<close> agree, and never
  when they differ.
\<close>

theorem ztruth_inner_join:
  "(\<forall>(a, b) \<in> set (ztruth zcat truth_dark).
      a \<in> set zcat \<and> b \<in> set truth_dark \<and> TARGETID a = TARGETID b) \<and>
   (\<forall>a \<in> set zcat. \<forall>b \<in> set truth_dark.
      TARGETID a = TARGETID b \<longrightarrow> (a, b) \<in> set (ztruth zcat truth_dark)) \<and>
   (\<forall>a b. count_list (ztruth zcat truth_dark) (a, b) =
      (if TARGETID a = TARGETID b then count_list zcat a * count_list truth_dark b else 0))"
  by (auto simp: ztruth_def set_table_join count_table_join)

theorem ztruth_inner_join_witness:
  "ztruth demo_zcat demo_truth_dark =
     [(\<lparr>TARGETID = 11, Z = 1/2, SPECTYPE = ''GALAXY''\<rparr>, \<lparr>TARGETID = 11, TRUEZ = 1/2, TEMPLATETYPE = ''LRG''\<rparr>),
      (\<lparr>TARGETID = 12, Z = 2, SPECTYPE = ''QSO''\<rparr>, \<lparr>TARGETID = 12, TRUEZ = 2, TEMPLATETYPE = ''QSO''\<rparr>)] \<and>
   (demo_zcat ! 1, demo_truth_dark ! 0) \<in> set (ztruth demo_zcat demo_truth_dark) \<and>
   count_list (ztruth demo_zcat demo_truth_dark) (demo_zcat ! 2, demo_truth_dark ! 1) = 0"
proof -
  note T = ztruth_inner_join [of demo_zcat demo_truth_dark]
  have a: "demo_zcat ! 1 \<in> set demo_zcat" and b: "demo_truth_dark ! 0 \<in> set demo_truth_dark"
    by (simp_all add: demo_zcat_def demo_truth_dark_def)
  have k: "TARGETID (demo_zcat ! 1) = TARGETID (demo_truth_dark ! 0)"
    by (simp add: demo_zcat_def demo_truth_dark_def)
  from T a b k have m: "(demo_zcat ! 1, demo_truth_dark ! 0) \<in> set (ztruth demo_zcat demo_truth_dark)"
    by blast
  have "TARGETID (demo_zcat ! 2) \<noteq> TARGETID (demo_truth_dark ! 1)"
    by (simp add: demo_zcat_def demo_truth_dark_def)
  with T have c: "count_list (ztruth demo_zcat demo_truth_dark) (demo_zcat ! 2, demo_truth_dark ! 1) = 0"
    by simp
  have "ztruth demo_zcat demo_truth_dark =
     [(\<lparr>TARGETID = 11, Z = 1/2, SPECTYPE = ''GALAXY''\<rparr>, \<lparr>TARGETID = 11, TRUEZ = 1/2, TEMPLATETYPE = ''LRG''\<rparr>),
      (\<lparr>TARGETID = 12, Z = 2, SPECTYPE = ''QSO''\<rparr>, \<lparr>TARGETID = 12, TRUEZ = 2, TEMPLATETYPE = ''QSO''\<rparr>)]"
    by (simp add: ztruth_def table_join_def demo_zcat_def demo_truth_dark_def)
  with m c show ?thesis by simp
qed

subsection \<open>Rounding\<close>

lemma pow2_powi: "pow2 e = 2 powi e"
  by (simp add: pow2_def power_int_def field_simps)

lemma pow2_pos: "0 < pow2 e"
  by (simp add: pow2_powi)

lemma pow2_add: "pow2 (a + b) = pow2 a * pow2 b"
  by (simp add: pow2_powi power_int_add)

lemma pow2_diff: "pow2 (a - b) = pow2 a / pow2 b"
  by (simp add: pow2_powi power_int_diff)

lemma pow2_mono: "a \<le> b \<Longrightarrow> pow2 a \<le> pow2 b"
  by (simp add: pow2_powi power_int_increasing)

lemma pow2_strict: "a < b \<Longrightarrow> pow2 a < pow2 b"
  by (simp add: pow2_powi power_int_strict_increasing)

lemma find_exp_bounds:
  "pow2 (e - int fuel) \<le> x \<Longrightarrow> x < pow2 (e + int fuel + 1) \<Longrightarrow>
   pow2 (find_exp fuel e x) \<le> x \<and> x < pow2 (find_exp fuel e x + 1)"
proof (induction fuel arbitrary: e)
  case 0
  then show ?case by simp
next
  case (Suc fuel)
  show ?case
  proof (cases "x < pow2 e")
    case True
    have "pow2 (e - 1 - int fuel) \<le> x"
      using Suc.prems(1) by (simp add: algebra_simps)
    moreover have "x < pow2 (e - 1 + int fuel + 1)"
      using True pow2_mono [of e "e + int fuel"] by simp
    ultimately show ?thesis
      using Suc.IH [of "e - 1"] True by simp
  next
    case False
    show ?thesis
    proof (cases "pow2 (e + 1) \<le> x")
      case True
      have "pow2 (e + 1 - int fuel) \<le> x"
        using True pow2_mono [of "e + 1 - int fuel" "e + 1"] by simp
      moreover have "x < pow2 (e + 1 + int fuel + 1)"
        using Suc.prems(2) by (simp add: algebra_simps)
      ultimately show ?thesis
        using Suc.IH [of "e + 1"] True False by simp
    next
      case above: False
      with False show ?thesis by simp
    qed
  qed
qed

lemma round_even_near: "\<bar>of_int (round_even q) - q\<bar> \<le> 1 / 2"
proof -
  have "of_int \<lfloor>q\<rfloor> \<le> q" "q < of_int \<lfloor>q\<rfloor> + 1"
    by linarith+
  then show ?thesis
    unfolding round_even_def Let_def by (auto simp: abs_le_iff)
qed

lemma binary64_error:
  assumes lo: "pow2 (- 1022) \<le> \<bar>x\<bar>" and hi: "\<bar>x\<bar> \<le> pow2 1023"
  shows "\<bar>binary64 x - x\<bar> \<le> \<bar>x\<bar> / 2 ^ 53"
proof -
  define a where "a = \<bar>x\<bar>"
  define E where "E = find_exp 1075 0 a"
  have a_pos: "0 < a"
    using lo pow2_pos [of "- 1022"] by (simp add: a_def)
  then have x0: "x \<noteq> 0" by (auto simp: a_def)
  have "pow2 (0 - int 1075) \<le> a"
    using lo pow2_mono [of "- 1075" "- 1022"] by (simp add: a_def)
  moreover have "a < pow2 (0 + int 1075 + 1)"
    using hi pow2_strict [of 1023 1076] by (simp add: a_def)
  ultimately have E: "pow2 E \<le> a" "a < pow2 (E + 1)"
    using find_exp_bounds [of 0 1075 a] by (simp_all add: E_def)
  have "pow2 (- 1022) < pow2 (E + 1)"
    using lo E(2) by (simp add: a_def)
  then have "- 1022 < E + 1"
    using pow2_mono [of "E + 1" "- 1022"] by (cases "- 1022 < E + 1") auto
  then have clamp: "max E (- 1022) = E" by simp
  define s where "s = pow2 (E - 52)"
  define m where "m = round_even (a / s)"
  have s_pos: "0 < s" by (simp add: s_def pow2_pos)
  have b: "binary64 x = sgn x * of_int m * s"
    using x0 clamp by (simp add: binary64_def Let_def m_def s_def E_def a_def)
  have x: "x = sgn x * a"
    by (simp add: a_def sgn_mult_abs)
  have "binary64 x - x = sgn x * s * (of_int m - a / s)"
    using s_pos by (subst b, subst (2) x) (simp add: field_simps)
  then have "\<bar>binary64 x - x\<bar> = s * \<bar>of_int m - a / s\<bar>"
    using s_pos x0 by (simp add: abs_mult abs_sgn_eq)
  also have "\<dots> \<le> s * (1 / 2)"
    using s_pos round_even_near [of "a / s"] by (simp add: m_def)
  also have "\<dots> = pow2 E / 2 ^ 53"
    using pow2_diff [of E 52] by (simp add: s_def pow2_def)
  also have "\<dots> \<le> a / 2 ^ 53"
    using E(1) by (simp add: divide_right_mono)
  finally show ?thesis by (simp add: a_def)
qed

lemma round64_rel:
  assumes "x = 0 \<or> span (- 1022) 1023 x"
  shows "\<exists>d. \<bar>d\<bar> \<le> 1 / 2 ^ 53 \<and> round64 x = Fin (x * (1 + d))"
proof (cases "x = 0")
  case True
  have "round64 0 = Fin 0"
    using pow2_pos [of 1024] by (simp add: round64_def binary64_def)
  with True show ?thesis
    by (intro exI [of _ 0]) simp
next
  case False
  with assms have r: "pow2 (- 1022) \<le> \<bar>x\<bar>" "\<bar>x\<bar> \<le> pow2 1023"
    by (simp_all add: span_def)
  note err = binary64_error [OF r]
  define d where "d = (binary64 x - x) / x"
  have d: "\<bar>d\<bar> \<le> 1 / 2 ^ 53"
  proof -
    have "\<bar>d\<bar> = \<bar>binary64 x - x\<bar> / \<bar>x\<bar>" by (simp add: d_def)
    also have "\<dots> \<le> (\<bar>x\<bar> / 2 ^ 53) / \<bar>x\<bar>"
      using err by (rule divide_right_mono) simp
    also have "\<dots> = 1 / 2 ^ 53" using False by simp
    finally show ?thesis .
  qed
  have v: "binary64 x = x * (1 + d)"
    using False by (simp add: d_def field_simps)
  have "\<bar>binary64 x\<bar> \<le> \<bar>x\<bar> + \<bar>x\<bar> / 2 ^ 53"
    using err by linarith
  also have "\<dots> \<le> pow2 1023 + pow2 1023 / 2 ^ 53"
    using r(2) by (intro add_mono divide_right_mono) simp_all
  also have "\<dots> < pow2 1023 + pow2 1023"
    using pow2_pos [of 1023] by (simp add: field_simps)
  also have "\<dots> = pow2 1024"
    using pow2_add [of 1023 1] by (simp add: pow2_def)
  finally have "\<not> pow2 1024 \<le> \<bar>binary64 x\<bar>" by simp
  then have "round64 x = Fin (binary64 x)"
    by (simp add: round64_def Let_def)
  with d v show ?thesis by auto
qed


lemma span_nonzero: "span a b x \<Longrightarrow> x \<noteq> 0"
  using pow2_pos [of a] by (auto simp: span_def)

lemma span_weaken: "span a b x \<Longrightarrow> a' \<le> a \<Longrightarrow> b \<le> b' \<Longrightarrow> span a' b' x"
  using pow2_mono [of a' a] pow2_mono [of b b'] by (auto simp: span_def)

lemma span_mult:
  assumes "span a b x" and "span c d y"
  shows "span (a + c) (b + d) (x * y)"
proof -
  have "pow2 a * pow2 c \<le> \<bar>x\<bar> * \<bar>y\<bar>"
    using assms pow2_pos [of a] pow2_pos [of c] by (intro mult_mono) (simp_all add: span_def)
  moreover have "\<bar>x\<bar> * \<bar>y\<bar> \<le> pow2 b * pow2 d"
    using assms pow2_pos [of b] by (intro mult_mono) (simp_all add: span_def)
  ultimately show ?thesis
    by (simp add: span_def abs_mult pow2_add)
qed

lemma span_inverse:
  assumes "span c d y"
  shows "span (- d) (- c) (1 / y)"
proof -
  have y: "0 < \<bar>y\<bar>" using span_nonzero [OF assms] by simp
  have "1 / pow2 d \<le> 1 / \<bar>y\<bar>"
    using assms y by (intro divide_left_mono) (simp_all add: span_def pow2_pos)
  moreover have "1 / \<bar>y\<bar> \<le> 1 / pow2 c"
    using assms y pow2_pos [of c] by (intro divide_left_mono) (simp_all add: span_def)
  moreover have "pow2 (- k) = 1 / pow2 k" for k
    using pow2_diff [of 0 k] by (simp add: pow2_def)
  ultimately show ?thesis
    by (simp add: span_def)
qed

lemma span_div:
  assumes "span a b x" and "span c d y"
  shows "span (a - d) (b - c) (x / y)"
  using span_mult [OF assms(1) span_inverse [OF assms(2)]] by simp

lemma span_rel:
  assumes "\<bar>d\<bar> \<le> 1 / 2 ^ 53"
  shows "span (- 1) 1 (1 + d)"
proof -
  have "(1::rat) / 2 ^ 53 \<le> 1 / 2" by simp
  with assms have "\<bar>d\<bar> \<le> 1 / 2" by linarith
  then show ?thesis by (simp add: span_def pow2_def abs_le_iff) linarith
qed

lemma rel_compose:
  assumes "\<bar>d1\<bar> \<le> 1 / 2 ^ 53" "\<bar>d2\<bar> \<le> 1 / 2 ^ 53" "\<bar>d3\<bar> \<le> 1 / 2 ^ 53" "\<bar>d4\<bar> \<le> 1 / 2 ^ 53"
  shows "\<bar>(1 + d1) * (1 + d2) * (1 + d4) / (1 + d3) - 1\<bar> \<le> (1::rat) / 2 ^ 50"
proof -
  define u :: rat where "u = 1 / 2 ^ 53"
  have u: "0 < 1 - u" "1 - u \<le> 1 + d1" "1 + d1 \<le> 1 + u" "1 - u \<le> 1 + d2" "1 + d2 \<le> 1 + u"
      "1 - u \<le> 1 + d3" "1 + d3 \<le> 1 + u" "1 - u \<le> 1 + d4" "1 + d4 \<le> 1 + u"
    using assms by (simp_all add: u_def abs_le_iff)
  define A where "A = (1 + d1) * (1 + d2) * (1 + d4)"
  define B where "B = 1 + d3"
  have B: "0 < B" "1 - u \<le> B" "B \<le> 1 + u"
    using u by (simp_all add: B_def)
  have "(1 + d1) * (1 + d2) \<le> (1 + u) * (1 + u)"
    using u by (intro mult_mono) simp_all
  then have "A \<le> (1 + u) * (1 + u) * (1 + u)"
    unfolding A_def using u by (intro mult_mono) simp_all
  also have "\<dots> \<le> (1 + 8 * u) * (1 - u)"
    by (simp add: u_def)
  also have "\<dots> \<le> (1 + 8 * u) * B"
    using B by (intro mult_left_mono) (simp_all add: u_def)
  finally have upper: "A \<le> (1 + 8 * u) * B" .
  have "(1 - u) * (1 - u) \<le> (1 + d1) * (1 + d2)"
    using u by (intro mult_mono) simp_all
  then have "(1 - u) * (1 - u) * (1 - u) \<le> A"
    unfolding A_def using u by (intro mult_mono) simp_all
  moreover have "(1 - 8 * u) * (1 + u) \<le> (1 - u) * (1 - u) * (1 - u)"
    by (simp add: u_def)
  moreover have "(1 - 8 * u) * B \<le> (1 - 8 * u) * (1 + u)"
    using B by (intro mult_left_mono) (simp_all add: u_def)
  ultimately have lower: "(1 - 8 * u) * B \<le> A" by linarith
  have "A / B - 1 \<le> 8 * u"
    using upper B(1) by (simp add: field_simps)
  moreover have "- (8 * u) \<le> A / B - 1"
    using lower B(1) by (simp add: field_simps)
  ultimately have "\<bar>A / B - 1\<bar> \<le> 8 * u" by (simp add: abs_le_iff)
  then show ?thesis by (simp add: A_def B_def u_def)
qed

lemma floor_rat_numeral: "\<lfloor>(numeral a :: rat) / numeral b\<rfloor> = numeral a div numeral b"
  using floor_divide_of_int_eq [of "numeral a" "numeral b", where ?'a = rat] by simp

lemma find_exp_numeral:
  "find_exp (numeral k) e x =
     (if x < pow2 e then find_exp (pred_numeral k) (e - 1) x
      else if pow2 (e + 1) \<le> x then find_exp (pred_numeral k) (e + 1) x
      else e)"
  by (simp add: numeral_eq_Suc)

lemmas float_eval = floor_rat_numeral binary64_def round64_def round_even_def pow2_def
  find_exp_numeral Let_def fadd_def fsub_def fmul_def fdiv_def


subsection \<open>The rebinning matrix\<close>

lemma map2_map_map: "map2 f (map g xs) (map h xs) = map (\<lambda>x. f (g x) (h x)) xs"
  by (induction xs) auto

lemma sum_list_if:
  "sum_list (map (\<lambda>x. if P x then a else b) xs) =
     of_nat (length (filter P xs)) * a + of_nat (length (filter (\<lambda>x. \<not> P x) xs)) * (b::rat)"
  by (induction xs) (auto simp: algebra_simps)

lemma rebin_matrix_eq:
  "rebin_matrix n =
     map (\<lambda>r. map (\<lambda>c. fdiv (Fin (if \<bar>int c - int r\<bar> < 5 then 1 else 0)) (Fin (of_nat (window n r))))
                [0..<n])
       [0..<n]"
proof -
  have close: "(\<bar>(of_nat c :: rat) - of_nat r\<bar> < 5) = (\<bar>int c - int r\<bar> < 5)" for c r
  proof -
    have "(of_nat c :: rat) - of_nat r = of_int (int c - int r)" by simp
    then have "\<bar>(of_nat c :: rat) - of_nat r\<bar> = of_int \<bar>int c - int r\<bar>" by (simp only: of_int_abs)
    moreover have "((of_int \<bar>int c - int r\<bar> :: rat) < 5) = (\<bar>int c - int r\<bar> < 5)"
      using of_int_less_iff [of "\<bar>int c - int r\<bar>" 5, where ?'a = rat] by simp
    ultimately show ?thesis by simp
  qed
  have s: "sum_list (map (\<lambda>c. if \<bar>int c - int r\<bar> < 5 then 1 else 0) [0..<n]) = (of_nat (window n r) :: rat)" for r
    by (simp add: sum_list_if window_def)
  have masks: "(if \<not> b then 0 else if b then 1 else a) = (if b then 1 else (0::rat))" for b a
    by simp
  show ?thesis
    unfolding rebin_matrix_def Let_def
    by (simp add: map2_map_map close masks s comp_def cong: map_cong)
qed

lemma window_bounds:
  assumes "r < n"
  shows "1 \<le> window n r \<and> window n r \<le> 9"
proof -
  let ?S = "{c. \<bar>int c - int r\<bar> < 5} \<inter> {0..<n}"
  have w: "window n r = card ?S"
    by (simp add: window_def distinct_length_filter)
  have "r \<in> ?S" using assms by simp
  then have "?S \<noteq> {}" by blast
  moreover have "finite ?S" by simp
  ultimately have "0 < card ?S" by (simp add: card_gt_0_iff)
  then have lo: "1 \<le> card ?S" by simp
  have "?S \<subseteq> {r - 4..r + 4}" by auto
  then have "card ?S \<le> card {r - 4..r + 4}" by (rule card_mono [rotated]) simp
  also have "\<dots> \<le> 9" by simp
  finally show ?thesis using lo w by simp
qed

lemma round64_zero: "round64 0 = Fin 0"
  using pow2_pos [of 1024] by (simp add: round64_def binary64_def)

lemma rebin_row:
  assumes "r < n"
  shows "rebin_matrix n ! r =
     map (\<lambda>c. if \<bar>int c - int r\<bar> < 5 then fdiv (Fin 1) (Fin (of_nat (window n r))) else Fin 0) [0..<n]"
proof -
  have "of_nat (window n r) \<noteq> (0::rat)"
    using window_bounds [OF assms] by simp
  then have "fdiv (Fin 0) (Fin (of_nat (window n r))) = Fin 0"
    by (simp add: fdiv_def round64_zero)
  then show ?thesis
    using assms
    by (simp add: rebin_matrix_eq if_distrib [of "\<lambda>a. fdiv (Fin a) _"] cong: if_cong)
qed

lemma fdiv_reciprocal:
  assumes "1 \<le> k" and "k \<le> 9"
  shows "\<exists>w. fdiv (Fin 1) (Fin (of_nat k)) = Fin w \<and> 0 < w \<and>
             \<bar>w - 1 / of_nat k\<bar> \<le> 1 / of_nat k / 2 ^ 53"
proof -
  define q :: rat where "q = 1 / of_nat k"
  have k: "(1::rat) \<le> of_nat k" "(of_nat k :: rat) \<le> 9"
    using assms by simp_all
  then have q: "0 < q" "1 / 16 \<le> q" "q \<le> 1"
    by (simp_all add: q_def field_simps)
  then have "span (- 1022) 1023 q"
    using pow2_mono [of "- 1022" "- 4"] pow2_mono [of 0 1023]
    by (simp add: span_def pow2_def)
  then obtain d where d: "\<bar>d\<bar> \<le> 1 / 2 ^ 53" "round64 q = Fin (q * (1 + d))"
    using round64_rel by blast
  have "(1::rat) / 2 ^ 53 < 1" by simp
  with d(1) have pos: "0 < 1 + d" by (simp add: abs_le_iff)
  have "fdiv (Fin 1) (Fin (of_nat k)) = Fin (q * (1 + d))"
    using k d(2) by (simp add: fdiv_def q_def)
  moreover have "0 < q * (1 + d)"
    using q(1) pos by simp
  moreover have "\<bar>q * (1 + d) - q\<bar> \<le> q / 2 ^ 53"
  proof -
    have "\<bar>q * (1 + d) - q\<bar> = q * \<bar>d\<bar>"
      using q(1) by (simp add: algebra_simps abs_mult)
    also have "\<dots> \<le> q * (1 / 2 ^ 53)"
      using q(1) d(1) by (intro mult_left_mono) simp_all
    finally show ?thesis by simp
  qed
  ultimately show ?thesis unfolding q_def by blast
qed

text \<open>
  Claim C9. The rebinning matrix of size \<open>n\<close> has \<open>n\<close> rows of \<open>n\<close> float entries. Row \<open>r\<close> holds
  one weight \<open>w\<close> at the \<open>k\<close> columns within distance 4 of \<open>r\<close>, where \<open>k\<close> is between 1 and
  9, and 0 elsewhere; \<open>w\<close> is the float quotient of 1 by \<open>k\<close>, a positive number within
  \<open>2^-53 / k\<close> of \<open>1/k\<close>. So the entries are nonnegative and applying the matrix is a moving
  average with equal weights over the window of half-width 4; \<open>A.dot(x)\<close> returns a
  vector of \<open>n\<close> entries for every \<open>x\<close> of \<open>n\<close> entries.
\<close>

theorem rebin_matrix_rows:
  assumes "r < n"
  shows "length (rebin_matrix n) = n \<and> length (rebin_matrix n ! r) = n \<and>
         1 \<le> window n r \<and> window n r \<le> 9 \<and>
         (\<exists>w. fdiv (Fin 1) (Fin (of_nat (window n r))) = Fin w \<and> 0 < w \<and>
              \<bar>w - 1 / of_nat (window n r)\<bar> \<le> 1 / of_nat (window n r) / 2 ^ 53 \<and>
              (\<forall>c<n. rebin_matrix n ! r ! c = (if \<bar>int c - int r\<bar> < 5 then Fin w else Fin 0))) \<and>
         (\<forall>x. length x = n \<longrightarrow>
              (\<exists>ys. dot (rebin_matrix n) x = Inr ys \<and> length ys = n \<and>
                    ys ! r = dot_row (rebin_matrix n ! r) x))"
proof -
  note wb = window_bounds [OF assms]
  have len: "length (rebin_matrix n) = n" "length (rebin_matrix n ! r) = n"
    using assms by (simp_all add: rebin_matrix_eq)
  from fdiv_reciprocal wb obtain w where w: "fdiv (Fin 1) (Fin (of_nat (window n r))) = Fin w"
      "0 < w" "\<bar>w - 1 / of_nat (window n r)\<bar> \<le> 1 / of_nat (window n r) / 2 ^ 53"
    by blast
  have entry: "rebin_matrix n ! r ! c = (if \<bar>int c - int r\<bar> < 5 then Fin w else Fin 0)"
    if "c < n" for c
    using that w(1) by (simp add: rebin_row [OF assms])
  have applied: "\<exists>ys. dot (rebin_matrix n) x = Inr ys \<and> length ys = n \<and>
      ys ! r = dot_row (rebin_matrix n ! r) x" if "length x = n" for x
  proof -
    have "list_all (\<lambda>row. length row = length x) (rebin_matrix n)"
      using that by (simp add: rebin_matrix_eq list_all_iff)
    then have "dot (rebin_matrix n) x = Inr (map (\<lambda>row. dot_row row x) (rebin_matrix n))"
      by (simp add: dot_def)
    moreover have "map (\<lambda>row. dot_row row x) (rebin_matrix n) ! r = dot_row (rebin_matrix n ! r) x"
      using assms len(1) by simp
    ultimately show ?thesis using len(1) by simp
  qed
  from len wb w entry applied show ?thesis by blast
qed

lemma window_9_4: "window 9 4 = 9"
  by code_simp

lemma ninth: "fdiv (Fin 1) (Fin 9) = Fin (2001599834386887 / 18014398509481984)"
  by (simp add: float_eval)

theorem rebin_matrix_rows_witness:
  "window 9 4 = 9 \<and> length (rebin_matrix 9 ! 4) = 9 \<and>
   rebin_matrix 9 ! 4 ! 0 = Fin (2001599834386887 / 18014398509481984) \<and>
   rebin_matrix 9 ! 4 ! 8 = Fin (2001599834386887 / 18014398509481984) \<and>
   rebin_matrix 9 ! 0 ! 5 = Fin 0"
proof -
  have r: "(4::nat) < 9" "(0::nat) < 9" by simp_all
  note T4 = rebin_matrix_rows [OF r(1)]
  note T0 = rebin_matrix_rows [OF r(2)]
  from T4 obtain w where w: "fdiv (Fin 1) (Fin (of_nat (window 9 4))) = Fin w"
      "\<forall>c<9. rebin_matrix 9 ! 4 ! c = (if \<bar>int c - int 4\<bar> < 5 then Fin w else Fin 0)"
    by blast
  from w(1) have "w = 2001599834386887 / 18014398509481984"
    by (simp add: window_9_4 ninth)
  with w(2) have "rebin_matrix 9 ! 4 ! 0 = Fin (2001599834386887 / 18014398509481984)"
    and "rebin_matrix 9 ! 4 ! 8 = Fin (2001599834386887 / 18014398509481984)"
    by simp_all
  moreover from T0 have "rebin_matrix 9 ! 0 ! 5 = Fin 0"
    by auto
  moreover from T4 have "length (rebin_matrix 9 ! 4) = 9"
    by simp
  ultimately show ?thesis by (simp add: window_9_4)
qed

text \<open>
  The matrix of size 9 applied to the constant vector of value 7: at the middle row,
  whose nine weights are the float nearest to 1/9, the result is the float below 7.
\<close>

theorem rebin_matrix_constant_vector:
  "\<exists>ys. dot (rebin_matrix 9) (replicate 9 (Fin 7)) = Inr ys \<and> ys ! 4 = Fin (7 - 1 / 2 ^ 50) \<and>
        ys ! 4 \<noteq> Fin 7"
proof -
  have nine: "replicate 9 v = [v, v, v, v, v, v, v, v, v]" for v :: fval
    by (simp add: numeral_eq_Suc)
  have cols: "[0..<9] = [0, 1, 2, 3, 4, 5, 6, 7, 8]"
    by code_simp
  have row: "rebin_matrix 9 ! 4 = replicate 9 (Fin (2001599834386887 / 18014398509481984))"
    by (simp add: rebin_row window_9_4 ninth cols nine)
  have "list_all (\<lambda>row. length row = length (replicate 9 (Fin 7))) (rebin_matrix 9)"
    by (simp add: rebin_matrix_eq list_all_iff)
  then have d: "dot (rebin_matrix 9) (replicate 9 (Fin 7)) =
      Inr (map (\<lambda>row. dot_row row (replicate 9 (Fin 7))) (rebin_matrix 9))"
    by (simp add: dot_def)
  have "length (rebin_matrix 9) = 9"
    by (simp add: rebin_matrix_eq)
  then have "map (\<lambda>row. dot_row row (replicate 9 (Fin 7))) (rebin_matrix 9) ! 4 =
      dot_row (rebin_matrix 9 ! 4) (replicate 9 (Fin 7))"
    by simp
  also have "\<dots> = Fin (7 - 1 / 2 ^ 50)"
    unfolding row nine by (simp add: dot_row_def float_eval)
  finally show ?thesis using d by simp
qed


subsection \<open>The velocity offset\<close>

text \<open>
  Claim C7. Let row \<open>i\<close> of \<open>ztruth\<close> hold the finite values \<open>z\<close> in \<open>Z\<close> and \<open>t\<close> in \<open>TRUEZ\<close>,
  with \<open>z - t\<close> zero or of moderate size and \<open>1 + t\<close> zero or of moderate size. When \<open>t\<close> is not
  \<open>-1\<close>, the entry \<open>i\<close> of \<open>dv\<close> is a finite float whose distance from
  \<open>300000 * (z - t) / (1 + t)\<close> is at most \<open>2^-50\<close> times the magnitude of that number: the
  four operations round, so the entry need not be that number. When \<open>t\<close> is \<open>-1\<close> nothing
  is raised and the entry is NaN for \<open>z = -1\<close>, plus infinity for \<open>z\<close> above \<open>-1\<close> and minus
  infinity for \<open>z\<close> below. \<open>dv\<close> has one entry for every row.
\<close>

theorem dv_rounded:
  assumes i: "i < length Zc" and len: "length TRUEZc = length Zc"
    and z: "Zc ! i = Fin z" and t: "TRUEZc ! i = Fin t"
    and num: "z = t \<or> moderate (z - t)" and den: "t = - 1 \<or> moderate (1 + t)"
  shows "length (dv Zc TRUEZc) = length Zc \<and>
         (t \<noteq> - 1 \<longrightarrow>
            (\<exists>y. dv Zc TRUEZc ! i = Fin y \<and>
                 \<bar>y - 300000 * (z - t) / (1 + t)\<bar> \<le> \<bar>300000 * (z - t) / (1 + t)\<bar> / 2 ^ 50)) \<and>
         (t = - 1 \<longrightarrow>
            dv Zc TRUEZc ! i = (if z = - 1 then NaN else if - 1 < z then PosInf else NegInf))"
proof -
  have row: "dv Zc TRUEZc ! i = fdiv (fmul (Fin 300000) (fsub (Fin z) (Fin t))) (fadd (Fin 1) (Fin t))"
    using i len z t by (simp add: dv_def)
  have sub: "fsub (Fin z) (Fin t) = round64 (z - t)"
    by (simp add: fsub_def fadd_def)
  have add: "fadd (Fin 1) (Fin t) = round64 (1 + t)"
    by (simp add: fadd_def)
  have c: "span 18 19 300000"
    by (simp add: span_def pow2_def)
  have zero: "round64 0 = Fin 0"
    using pow2_pos [of 1024] by (simp add: round64_def binary64_def)
  have s0: "z - t = 0 \<or> span (- 1022) 1023 (z - t)"
    using num span_weaken [of "- 500" 500 "z - t" "- 1022" 1023] by (auto simp: moderate_def span_def)
  then obtain d1 where d1: "\<bar>d1\<bar> \<le> 1 / 2 ^ 53" "round64 (z - t) = Fin ((z - t) * (1 + d1))"
    using round64_rel by blast
  define a where "a = (z - t) * (1 + d1)"
  have a: "a = 0 \<or> span (- 501) 501 a" and a0: "a = 0 \<longleftrightarrow> z = t"
  proof -
    show "a = 0 \<or> span (- 501) 501 a"
    proof (cases "z = t")
      case True
      then show ?thesis by (simp add: a_def)
    next
      case False
      with num have "span (- 500) 500 (z - t)" by (simp add: moderate_def span_def)
      from span_mult [OF this span_rel [OF d1(1)]] show ?thesis by (simp add: a_def)
    qed
    show "a = 0 \<longleftrightarrow> z = t"
      using span_nonzero [OF span_rel [OF d1(1)]] by (simp add: a_def)
  qed
  have p: "300000 * a = 0 \<or> span (- 1022) 1023 (300000 * a)"
  proof (cases "a = 0")
    case True
    then show ?thesis by simp
  next
    case False
    with a have "span (- 501) 501 a" by simp
    from span_weaken [OF span_mult [OF c this], of "- 1022" 1023] show ?thesis by simp
  qed
  then obtain d2 where d2: "\<bar>d2\<bar> \<le> 1 / 2 ^ 53" "round64 (300000 * a) = Fin (300000 * a * (1 + d2))"
    using round64_rel by blast
  define b where "b = 300000 * a * (1 + d2)"
  have numer: "fmul (Fin 300000) (fsub (Fin z) (Fin t)) = Fin b"
    using d2(2) by (simp add: sub d1(2) fmul_def a_def b_def)
  have b: "b = 0 \<or> span (- 484) 521 b" and b0: "b = 0 \<longleftrightarrow> z = t"
  proof -
    show "b = 0 \<or> span (- 484) 521 b"
    proof (cases "a = 0")
      case True
      then show ?thesis by (simp add: b_def)
    next
      case False
      with a have "span (- 501) 501 a" by simp
      from span_mult [OF span_mult [OF c this] span_rel [OF d2(1)]] show ?thesis by (simp add: b_def)
    qed
    show "b = 0 \<longleftrightarrow> z = t"
      using span_nonzero [OF span_rel [OF d2(1)]] a0 by (simp add: b_def)
  qed
  have sign: "0 < b \<longleftrightarrow> t < z"
  proof -
    have "0 < 1 + d1" "0 < 1 + d2"
      using d1(1) d2(1) by (simp_all add: abs_le_iff) 
    then show ?thesis
      by (simp add: b_def a_def zero_less_mult_iff)
  qed
  have finite: "\<exists>y. dv Zc TRUEZc ! i = Fin y \<and>
      \<bar>y - 300000 * (z - t) / (1 + t)\<bar> \<le> \<bar>300000 * (z - t) / (1 + t)\<bar> / 2 ^ 50"
    if "t \<noteq> - 1"
  proof -
    from that den have q: "span (- 500) 500 (1 + t)" by (simp add: moderate_def span_def)
    then have "1 + t = 0 \<or> span (- 1022) 1023 (1 + t)"
      using span_weaken [of "- 500" 500 "1 + t" "- 1022" 1023] by simp
    then obtain d3 where d3: "\<bar>d3\<bar> \<le> 1 / 2 ^ 53" "round64 (1 + t) = Fin ((1 + t) * (1 + d3))"
      using round64_rel by blast
    define d where "d = (1 + t) * (1 + d3)"
    have d: "span (- 501) 501 d"
      using span_mult [OF q span_rel [OF d3(1)]] by (simp add: d_def)
    have dn: "d \<noteq> 0" by (rule span_nonzero [OF d])
    have quot: "b / d = 0 \<or> span (- 1022) 1023 (b / d)"
    proof (cases "b = 0")
      case True
      then show ?thesis by simp
    next
      case False
      with b have "span (- 484) 521 b" by simp
      from span_weaken [OF span_div [OF this d], of "- 1022" 1023] show ?thesis by simp
    qed
    then obtain d4 where d4: "\<bar>d4\<bar> \<le> 1 / 2 ^ 53" "round64 (b / d) = Fin (b / d * (1 + d4))"
      using round64_rel by blast
    define y where "y = b / d * (1 + d4)"
    define E where "E = 300000 * (z - t) / (1 + t)"
    have "fadd (Fin 1) (Fin t) = Fin d"
      by (simp add: add d3(2) d_def)
    then have "dv Zc TRUEZc ! i = round64 (b / d)"
      using dn by (simp add: row numer fdiv_def)
    then have val: "dv Zc TRUEZc ! i = Fin y"
      by (simp add: d4(2) y_def)
    have t1: "1 + t \<noteq> 0" using that by linarith
    have d31: "1 + d3 \<noteq> 0" using span_nonzero [OF span_rel [OF d3(1)]] .
    have "y = E * ((1 + d1) * (1 + d2) * (1 + d4) / (1 + d3))"
      using t1 d31 by (simp add: y_def b_def a_def d_def E_def field_simps)
    then have "y - E = E * ((1 + d1) * (1 + d2) * (1 + d4) / (1 + d3) - 1)"
      by (simp add: algebra_simps)
    then have "\<bar>y - E\<bar> = \<bar>E\<bar> * \<bar>(1 + d1) * (1 + d2) * (1 + d4) / (1 + d3) - 1\<bar>"
      by (simp add: abs_mult)
    also have "\<dots> \<le> \<bar>E\<bar> * (1 / 2 ^ 50)"
      using rel_compose [OF d1(1) d2(1) d3(1) d4(1)] by (intro mult_left_mono) simp_all
    finally have "\<bar>y - E\<bar> \<le> \<bar>E\<bar> / 2 ^ 50" by simp
    with val show ?thesis unfolding E_def by blast
  qed
  have pole: "dv Zc TRUEZc ! i = (if z = - 1 then NaN else if - 1 < z then PosInf else NegInf)"
    if "t = - 1"
  proof -
    have "fadd (Fin 1) (Fin t) = round64 0"
      using that by (simp add: fadd_def)
    then have "fadd (Fin 1) (Fin t) = Fin 0"
      by (simp add: zero)
    then have "dv Zc TRUEZc ! i = (if b = 0 then NaN else if 0 < b then PosInf else NegInf)"
      by (simp add: row numer fdiv_def)
    with b0 sign that show ?thesis by simp
  qed
  have "length (dv Zc TRUEZc) = length Zc"
    using len by (simp add: dv_def)
  with finite pole show ?thesis by blast
qed

theorem dv_rounded_witness:
  "dv [Fin 2, Fin 0] [Fin 1, Fin (- 1)] = [Fin 150000, PosInf] \<and>
   dv [Fin 2, Fin 0] [Fin 1, Fin (- 1)] ! 1 = PosInf \<and>
   (\<exists>y. dv [Fin 2, Fin 0] [Fin 1, Fin (- 1)] ! 0 = Fin y \<and> \<bar>y - 150000\<bar> \<le> 150000 / 2 ^ 50)"
proof -
  have m1: "(2::rat) = 1 \<or> moderate (2 - 1)" and m2: "(1::rat) = - 1 \<or> moderate (1 + 1)"
    and m3: "(0::rat) = - 1 \<or> moderate (0 - (- 1))" and m4: "(- 1::rat) = - 1 \<or> moderate (1 + (- 1))"
    by (simp_all add: moderate_def span_def pow2_def)
  have l: "length [Fin 1, Fin (- 1)] = length [Fin 2, Fin 0]" by simp
  have "(0::nat) < length [Fin 2, Fin 0]" by simp
  note T0 = dv_rounded [OF this l _ _ m1 m2]
  have "(1::nat) < length [Fin 2, Fin 0]" by simp
  note T1 = dv_rounded [OF this l _ _ m3 m4]
  have v: "dv [Fin 2, Fin 0] [Fin 1, Fin (- 1)] = [Fin 150000, PosInf]"
    by (simp add: dv_def float_eval)
  from T0 have "\<exists>y. dv [Fin 2, Fin 0] [Fin 1, Fin (- 1)] ! 0 = Fin y \<and> \<bar>y - 150000\<bar> \<le> 150000 / 2 ^ 50"
    by simp
  moreover from T1 have "dv [Fin 2, Fin 0] [Fin 1, Fin (- 1)] ! 1 = PosInf"
    by simp
  ultimately show ?thesis using v by blast
qed

text \<open>
  The row with \<open>Z = 1\<close> and \<open>TRUEZ = 6\<close>: the entry of \<open>dv\<close> is the float nearest to
  \<open>-1500000/7\<close>, not that number.
\<close>

theorem dv_not_exact:
  "dv [Fin 1] [Fin 6] = [Fin (- (7362801078857143 / 34359738368))] \<and>
   - (7362801078857143 / 34359738368) \<noteq> (300000 * (1 - 6) / (1 + 6) :: rat)"
  by (simp add: dv_def float_eval)

end
